theory Spec2Isabelle
  imports Complex_Main
begin

section \<open>The service worker (asset cache manager)\<close>

text \<open>
  The worker script talks to three platform objects: the cache storage \<open>caches\<close>, the
  network (\<open>fetch\<close>) and the lifecycle events. They are modelled as data:
  \<^item> a request is its method and its URL; a response is its status and its body
    (headers are not modelled);
  \<^item> a cache is the list of its entries, keyed by the URL of the GET request stored;
  \<^item> the cache storage is the list of its named caches in creation order, which is the
    order of \<open>caches.keys()\<close> and the order in which \<open>caches.match\<close> searches;
  \<^item> the network is a function from requests to the response \<open>fetch\<close> resolves with,
    \<open>None\<close> where the promise rejects.
  A promise passed to \<open>event.waitUntil\<close> or \<open>event.respondWith\<close> settles as
  \<open>Fulfilled\<close> or \<open>Rejected\<close>; every handler takes the cache storage and returns the
  storage it leaves behind.
\<close>

record request =
  http_method :: string
  url :: string

record response =
  status :: nat
  body :: string

type_synonym cache = "(string \<times> response) list"
type_synonym cache_storage = "(string \<times> cache) list"
type_synonym network = "request \<Rightarrow> response option"

datatype settled = Fulfilled | Rejected

definition CACHE_NAME :: string where
  "CACHE_NAME = ''price-scanner-cache-v1''"

definition URLS_TO_CACHE :: "string list" where
  "URLS_TO_CACHE =
     [''/'', ''/index.html'', ''/styles.css'', ''/app.js'', ''/manifest.json'',
      ''/logo-192.png'', ''/logo-512.png'']"

definition GET :: "string \<Rightarrow> request" where
  "GET u = \<lparr>http_method = ''GET'', url = u\<rparr>"

subsection \<open>The platform's cache operations\<close>

text \<open>\<open>caches.open(name)\<close>: the cache of that name, created empty at the end when absent.\<close>

definition caches_open :: "string \<Rightarrow> cache_storage \<Rightarrow> cache \<times> cache_storage" where
  "caches_open name cs =
     (case map_of cs name of
        Some c \<Rightarrow> (c, cs)
      | None \<Rightarrow> ([], cs @ [(name, [])]))"

text \<open>Writing a cache back under its name (the cache object is shared with the storage).\<close>

definition caches_store :: "string \<Rightarrow> cache \<Rightarrow> cache_storage \<Rightarrow> cache_storage" where
  "caches_store name c cs = map (\<lambda>(n, old). if n = name then (n, c) else (n, old)) cs"

text \<open>\<open>caches.keys()\<close> and \<open>caches.delete(name)\<close>.\<close>

definition caches_keys :: "cache_storage \<Rightarrow> string list" where
  "caches_keys cs = map fst cs"

definition caches_delete :: "string \<Rightarrow> cache_storage \<Rightarrow> cache_storage" where
  "caches_delete name cs = filter (\<lambda>(n, c). n \<noteq> name) cs"

text \<open>
  \<open>cache.addAll(urls)\<close> fetches every URL and stores the responses in one batch. It
  rejects, storing nothing, when a fetch rejects, when a response has a status outside
  200..299 or the status 206, or when the list names a URL twice.
\<close>

definition addable :: "response \<Rightarrow> bool" where
  "addable r \<longleftrightarrow> 200 \<le> status r \<and> status r \<le> 299 \<and> status r \<noteq> 206"

fun fetch_all :: "network \<Rightarrow> string list \<Rightarrow> (string \<times> response) list option" where
  "fetch_all net [] = Some []"
| "fetch_all net (u # us) =
     (case net (GET u) of
        None \<Rightarrow> None
      | Some r \<Rightarrow>
          if addable r
          then (case fetch_all net us of None \<Rightarrow> None | Some rs \<Rightarrow> Some ((u, r) # rs))
          else None)"

definition cache_put :: "string \<times> response \<Rightarrow> cache \<Rightarrow> cache" where
  "cache_put e c = filter (\<lambda>(u, r). u \<noteq> fst e) c @ [e]"

definition cache_addAll :: "network \<Rightarrow> string list \<Rightarrow> cache \<Rightarrow> cache option" where
  "cache_addAll net urls c =
     (if distinct urls
      then (case fetch_all net urls of
              None \<Rightarrow> None
            | Some rs \<Rightarrow> Some (fold cache_put rs c))
      else None)"

text \<open>Fetching a URL succeeds for \<open>addAll\<close>: the fetch resolves, with a response it accepts.\<close>

definition fetch_ok :: "network \<Rightarrow> string \<Rightarrow> bool" where
  "fetch_ok net u = (case net (GET u) of None \<Rightarrow> False | Some r \<Rightarrow> addable r)"

text \<open>
  \<open>cache.match(request)\<close> and \<open>caches.match(request)\<close>: only a GET request matches, by
  its URL; the storage is searched cache by cache and the first hit wins.
\<close>

definition cache_match :: "cache \<Rightarrow> request \<Rightarrow> response option" where
  "cache_match c req = (if http_method req = ''GET'' then map_of c (url req) else None)"

fun caches_match :: "cache_storage \<Rightarrow> request \<Rightarrow> response option" where
  "caches_match [] req = None"
| "caches_match ((n, c) # cs) req =
     (case cache_match c req of
        Some r \<Rightarrow> Some r
      | None \<Rightarrow> caches_match cs req)"

subsection \<open>The three event listeners\<close>

text \<open>
  \<^verbatim>\<open>install\<close>: \<open>caches.open(CACHE_NAME).then(cache => cache.addAll(URLS_TO_CACHE))\<close>.
  The result is how the promise given to \<open>waitUntil\<close> settles: a rejection fails the
  installation of this worker version.
\<close>

definition install :: "network \<Rightarrow> cache_storage \<Rightarrow> settled \<times> cache_storage" where
  "install net cs =
     (case caches_open CACHE_NAME cs of
        (c, cs1) \<Rightarrow>
          (case cache_addAll net URLS_TO_CACHE c of
             None \<Rightarrow> (Rejected, cs1)
           | Some c' \<Rightarrow> (Fulfilled, caches_store CACHE_NAME c' cs1)))"

text \<open>
  \<^verbatim>\<open>activate\<close>: for every name of \<open>caches.keys()\<close>, \<open>caches.delete(name)\<close> when
  \<open>cacheName !== CACHE_NAME\<close>.
\<close>

definition activate :: "cache_storage \<Rightarrow> cache_storage" where
  "activate cs =
     fold (\<lambda>cacheName cs'. if cacheName \<noteq> CACHE_NAME then caches_delete cacheName cs' else cs')
       (caches_keys cs) cs"

text \<open>
  \<^verbatim>\<open>fetch\<close>: \<open>caches.match(event.request).then(response => response || fetch(event.request))\<close>.
  The result is what \<open>respondWith\<close> receives (\<open>None\<close>: the promise rejects).
\<close>

definition on_fetch :: "network \<Rightarrow> cache_storage \<Rightarrow> request \<Rightarrow> response option \<times> cache_storage" where
  "on_fetch net cs req =
     (case caches_match cs req of
        Some response \<Rightarrow> (Some response, cs)
      | None \<Rightarrow> (net req, cs))"

section \<open>The page script (price ledger)\<close>

subsection \<open>Numbers and \<open>parseFloat\<close>\<close>

text \<open>
  A JavaScript Number is \<open>NaN\<close>, one of the two infinities, or finite. A finite Number
  is kept as the rational it was read from: rounding to the nearest binary64 value is
  not modelled, except that a literal too large for a finite binary64 value becomes an
  infinity, as it does in the language. Negative zero is not told apart from zero.
  Strings are lists of characters with codes 0..255.
\<close>

datatype number = NaN | PosInfinity | NegInfinity | Finite rat

definition isNaN :: "number \<Rightarrow> bool" where
  "isNaN x \<longleftrightarrow> x = NaN"

definition Number_value :: "rat \<Rightarrow> number" where
  "Number_value q =
     (if 2 ^ 1024 - 2 ^ 970 \<le> \<bar>q\<bar>
      then (if q < 0 then NegInfinity else PosInfinity)
      else Finite q)"

definition StrWhiteSpaceChar :: "char \<Rightarrow> bool" where
  "StrWhiteSpaceChar c \<longleftrightarrow>
     c \<in> set [CHR 0x09, CHR 0x0A, CHR 0x0B, CHR 0x0C, CHR 0x0D, CHR 0x20, CHR 0xA0]"

definition DecimalDigit :: "char \<Rightarrow> bool" where
  "DecimalDigit c \<longleftrightarrow> c \<in> set ''0123456789''"

definition digit_value :: "char \<Rightarrow> nat" where
  "digit_value c = of_char c - 48"

definition DecimalDigits_MV :: "string \<Rightarrow> nat" where
  "DecimalDigits_MV ds = foldl (\<lambda>n c. 10 * n + digit_value c) 0 ds"

text \<open>\<open>m \<times> 10\<^sup>e\<close> for an integer exponent.\<close>

definition scale10 :: "nat \<Rightarrow> int \<Rightarrow> rat" where
  "scale10 m e = (if 0 \<le> e then of_nat m * 10 ^ nat e else of_nat m / 10 ^ nat (- e))"

text \<open>
  The exponent part at the start of a string: \<open>e\<close> or \<open>E\<close>, an optional sign, and at
  least one digit. Its value is 0 when there is none (then nothing of it belongs to
  the literal).
\<close>

definition ExponentPart :: "string \<Rightarrow> int" where
  "ExponentPart s =
     (case s of
        [] \<Rightarrow> 0
      | c # r \<Rightarrow>
          if c = CHR ''e'' \<or> c = CHR ''E''
          then (case r of
                  [] \<Rightarrow> 0
                | d # r' \<Rightarrow>
                    if d = CHR ''+'' then int (DecimalDigits_MV (takeWhile DecimalDigit r'))
                    else if d = CHR ''-'' then - int (DecimalDigits_MV (takeWhile DecimalDigit r'))
                    else int (DecimalDigits_MV (takeWhile DecimalDigit r)))
          else 0)"

text \<open>
  After the leading digits: the digits of the fraction (a point and the digits that
  follow it) and the rest of the string behind the fraction.
\<close>

definition fraction_digits :: "string \<Rightarrow> string" where
  "fraction_digits r =
     (case r of [] \<Rightarrow> [] | c # r' \<Rightarrow> if c = CHR ''.'' then takeWhile DecimalDigit r' else [])"

definition after_fraction :: "string \<Rightarrow> string" where
  "after_fraction r =
     (case r of [] \<Rightarrow> [] | c # r' \<Rightarrow> if c = CHR ''.'' then dropWhile DecimalDigit r' else r)"

text \<open>
  The Number denoted by the longest prefix that is a \<open>StrUnsignedDecimalLiteral\<close>:
  \<open>Infinity\<close>, or digits with an optional fraction and exponent part, where the digits
  before or after the point may be missing but not both. \<open>None\<close> when no prefix is one.
\<close>

definition StrUnsignedDecimalLiteral :: "string \<Rightarrow> number option" where
  "StrUnsignedDecimalLiteral u =
     (if take 8 u = ''Infinity'' then Some PosInfinity
      else
        let ip = takeWhile DecimalDigit u;
            fp = fraction_digits (dropWhile DecimalDigit u);
            r = after_fraction (dropWhile DecimalDigit u)
        in if ip = [] \<and> fp = [] then None
           else Some (Number_value
                        (scale10 (DecimalDigits_MV (ip @ fp)) (ExponentPart r - int (length fp)))))"

fun negate :: "number \<Rightarrow> number" where
  "negate NaN = NaN"
| "negate PosInfinity = NegInfinity"
| "negate NegInfinity = PosInfinity"
| "negate (Finite q) = Finite (- q)"

text \<open>
  \<open>parseFloat(string)\<close>: leading white space is dropped, then the longest prefix that is
  a \<open>StrDecimalLiteral\<close> (an optional sign and an unsigned literal) is read; whatever
  follows it is ignored. \<open>NaN\<close> when there is no such prefix.
\<close>

definition parseFloat :: "string \<Rightarrow> number" where
  "parseFloat s =
     (case dropWhile StrWhiteSpaceChar s of
        [] \<Rightarrow> NaN
      | c # r \<Rightarrow>
          if c = CHR ''-'' then
            (case StrUnsignedDecimalLiteral r of None \<Rightarrow> NaN | Some x \<Rightarrow> negate x)
          else if c = CHR ''+'' then
            (case StrUnsignedDecimalLiteral r of None \<Rightarrow> NaN | Some x \<Rightarrow> x)
          else
            (case StrUnsignedDecimalLiteral (c # r) of None \<Rightarrow> NaN | Some x \<Rightarrow> x))"

subsection \<open>Values, JSON and \<open>localStorage\<close>\<close>

text \<open>
  The values \<open>JSON.parse\<close> returns. An object is the list of its own properties in the
  order \<open>Object.keys\<close> enumerates them.
\<close>

datatype json =
    JNull
  | JBool bool
  | JNum number
  | JStr string
  | JArr "json list"
  | JObj "(string \<times> json) list"

text \<open>
  The script never looks at the characters of the stored string: it only gives the
  string to \<open>JSON.parse\<close>, and only stores what \<open>JSON.stringify\<close> returns. A stored
  string is therefore modelled by what \<open>JSON.parse\<close> makes of it: the empty string, a
  non-empty string that is not a JSON text, or a JSON text, given by the value it
  denotes. \<open>localStorage.getItem('prices')\<close> is \<open>None\<close> (\<open>null\<close>) while nothing is stored.
\<close>

datatype item = EmptyString | Malformed | Serialized json

datatype exn = SyntaxError | TypeError | RangeError

fun JSON_parse :: "item \<Rightarrow> exn + json" where
  "JSON_parse EmptyString = Inl SyntaxError"
| "JSON_parse Malformed = Inl SyntaxError"
| "JSON_parse (Serialized v) = Inr v"

text \<open>
  \<open>JSON.stringify\<close> writes a Number that is not finite as \<open>null\<close>; everything else that
  \<open>JSON.parse\<close> can return is written so that it reads back as it was. \<open>reread v\<close> is
  the value denoted by the text written for \<open>v\<close>.
\<close>

fun reread :: "json \<Rightarrow> json" where
  "reread (JNum (Finite q)) = JNum (Finite q)"
| "reread (JNum x) = JNull"
| "reread (JArr vs) = JArr (map reread vs)"
| "reread (JObj kvs) = JObj (map (\<lambda>kv. (fst kv, reread (snd kv))) kvs)"
| "reread v = v"

definition JSON_stringify :: "json \<Rightarrow> item" where
  "JSON_stringify v = Serialized (reread v)"

text \<open>\<open>localStorage.getItem('prices') || '{}'\<close>: \<open>null\<close> and the empty string are falsy.\<close>

fun or_empty_object :: "item option \<Rightarrow> item" where
  "or_empty_object None = Serialized (JObj [])"
| "or_empty_object (Some EmptyString) = Serialized (JObj [])"
| "or_empty_object (Some t) = t"

subsection \<open>Own properties\<close>

text \<open>The decimal digits of a natural number: an index as a property name.\<close>

function show_nat :: "nat \<Rightarrow> string" where
  "show_nat n =
     (if n < 10 then [char_of (48 + n)]
      else show_nat (n div 10) @ [char_of (48 + n mod 10)])"
  by pat_completeness auto
termination
  by (relation "measure id") auto

text \<open>
  An array index: the canonical decimal string of an integer below \<open>2\<^sup>3\<^sup>2 - 1\<close>. An
  object enumerates its array-index keys first, in ascending order, and its other keys
  after them in the order of their creation.
\<close>

definition array_index :: "string \<Rightarrow> nat option" where
  "array_index k =
     (if k \<noteq> [] \<and> list_all DecimalDigit k \<and> (k = ''0'' \<or> hd k \<noteq> CHR ''0'')
         \<and> DecimalDigits_MV k < 2 ^ 32 - 1
      then Some (DecimalDigits_MV k)
      else None)"

text \<open>
  The own enumerable properties of a value that is not \<open>null\<close>, in the order of
  \<open>Object.keys\<close>: none for a boolean or a number, the characters of a string and the
  elements of an array under their indices, the members of an object.
\<close>

fun own_props :: "json \<Rightarrow> (string \<times> json) list" where
  "own_props (JStr s) = zip (map show_nat [0..<length s]) (map (\<lambda>c. JStr [c]) s)"
| "own_props (JArr vs) = zip (map show_nat [0..<length vs]) vs"
| "own_props (JObj kvs) = kvs"
| "own_props v = []"

definition Object_keys :: "json \<Rightarrow> exn + string list" where
  "Object_keys v = (if v = JNull then Inl TypeError else Inr (map fst (own_props v)))"

text \<open>\<open>data[code]\<close> for an own key of \<open>data\<close> (\<open>None\<close>: \<open>undefined\<close>).\<close>

definition get_prop :: "json \<Rightarrow> string \<Rightarrow> json option" where
  "get_prop v k = map_of (own_props v) k"

text \<open>
  \<open>x.toFixed(2)\<close> throws a TypeError unless \<open>x\<close> is a Number: \<open>undefined\<close> and \<open>null\<close>
  have no properties, and on any other value \<open>toFixed\<close> is not a function. The digits
  it produces are not modelled: the result stands for the Number formatted.
\<close>

fun toFixed :: "json option \<Rightarrow> exn + number" where
  "toFixed (Some (JNum x)) = Inr x"
| "toFixed v = Inl TypeError"

text \<open>
  \<open>data[k] = price\<close> on an object, for a Number \<open>price\<close>. An own property keeps its place
  and takes the new value. Otherwise the name \<open>__proto__\<close> reaches the setter inherited
  from \<open>Object.prototype\<close>, which ignores a value that is neither an object nor
  \<open>null\<close>: the object is unchanged. Any other name becomes a new own property, at its
  place among the array indices or at the end.
\<close>

definition index_before :: "nat \<Rightarrow> string \<times> json \<Rightarrow> bool" where
  "index_before i kv = (case array_index (fst kv) of None \<Rightarrow> False | Some j \<Rightarrow> j < i)"

definition object_set :: "(string \<times> json) list \<Rightarrow> string \<Rightarrow> number \<Rightarrow> (string \<times> json) list" where
  "object_set kvs k price =
     (if k \<in> fst ` set kvs
      then map (\<lambda>kv. if fst kv = k then (k, JNum price) else kv) kvs
      else if k = ''__proto__'' then kvs
      else (case array_index k of
              None \<Rightarrow> kvs @ [(k, JNum price)]
            | Some i \<Rightarrow>
                takeWhile (index_before i) kvs @ [(k, JNum price)] @ dropWhile (index_before i) kvs))"

text \<open>
  \<open>data[k] = price\<close> on an array. Under an array index the element is replaced, or the
  array grows up to that index. Under \<open>length\<close> the array is cut or grows to the new
  length when the price is an integer from 0 to \<open>2\<^sup>3\<^sup>2 - 1\<close>, and a RangeError is
  thrown otherwise. Any other name becomes a named property of the array (\<open>__proto__\<close>
  is ignored as on an object), which \<open>JSON.stringify\<close> does not write. The result is
  given as \<open>JSON.stringify\<close>, its only reader, sees it: the elements, with \<open>null\<close> for
  every hole left by growing. The engine's limit on the length of the written string
  is not modelled.
\<close>

definition array_length :: "number \<Rightarrow> nat option" where
  "array_length x =
     (case x of
        Finite q \<Rightarrow>
          if 0 \<le> q \<and> q \<le> 2 ^ 32 - 1 \<and> q = of_int \<lfloor>q\<rfloor> then Some (nat \<lfloor>q\<rfloor>) else None
      | _ \<Rightarrow> None)"

definition array_set :: "json list \<Rightarrow> string \<Rightarrow> number \<Rightarrow> exn + json list" where
  "array_set vs k price =
     (case array_index k of
        Some i \<Rightarrow>
          Inr (if i < length vs then vs[i := JNum price]
               else vs @ replicate (i - length vs) JNull @ [JNum price])
      | None \<Rightarrow>
          if k = ''length''
          then (case array_length price of
                  None \<Rightarrow> Inl RangeError
                | Some n \<Rightarrow> Inr (take n vs @ replicate (n - length vs) JNull))
          else Inr vs)"

text \<open>
  \<open>data[k] = price\<close> on what \<open>JSON.parse\<close> returned. On \<open>null\<close> it throws a TypeError.
  On a boolean, a number or a string nothing is stored: the assignment is ignored in
  a classic script, and throws a TypeError in strict mode unless the name is
  \<open>__proto__\<close> (the inherited setter is called and ignores the number). The script has
  no directive of its own, so the mode is the one the page loads it in; it is the first
  argument.
\<close>

fun assign :: "bool \<Rightarrow> json \<Rightarrow> string \<Rightarrow> number \<Rightarrow> exn + json" where
  "assign strict (JObj kvs) k price = Inr (JObj (object_set kvs k price))"
| "assign strict (JArr vs) k price =
     (case array_set vs k price of Inl e \<Rightarrow> Inl e | Inr vs' \<Rightarrow> Inr (JArr vs'))"
| "assign strict JNull k price = Inl TypeError"
| "assign strict v k price = (if strict \<and> k \<noteq> ''__proto__'' then Inl TypeError else Inr v)"

subsection \<open>The page\<close>

text \<open>
  The state the script reads and writes: whether the page runs the script in strict
  mode (as a module) or as a classic script, the stored item and the number of
  \<open>localStorage.setItem\<close> calls made so far, the variable \<open>currentCode\<close>, the parts of
  the document the script touches, the scanner (whether it runs, whether \<open>onDetected\<close>
  is subscribed) and what was reported with \<open>alert\<close> and \<open>console.error\<close>. A row of the
  price list holds the text of its code span and the Number that its price span shows
  (as \<open>$\<close> and \<open>toFixed(2)\<close> of it). \<open>localStorage.setItem\<close> is taken to succeed: a full
  storage is not modelled.
\<close>

record li =
  codeSpan :: string
  priceSpan :: number

record page =
  strict_mode :: bool
  storage :: "item option"
  setItem_calls :: nat
  currentCode :: "string option"
  priceEntry_hidden :: bool
  scannedCodeSpan :: string
  priceInput_value :: string
  pricesList :: "li list"
  scannerContainer :: string
  scanning :: bool
  subscribed :: bool
  alerts :: "string list"
  console_errors :: "string list"

text \<open>How a function or handler ends: normally, or by an exception that nothing catches.\<close>

datatype completion = Normal | Throw exn

text \<open>
  The body of the \<open>forEach\<close> in \<open>loadPrices\<close>, key by key: the row is appended after
  \<open>data[code].toFixed(2)\<close> has returned, so an exception there leaves the rows made so
  far.
\<close>

fun render :: "json \<Rightarrow> string list \<Rightarrow> page \<Rightarrow> completion \<times> page" where
  "render data [] s = (Normal, s)"
| "render data (code # codes) s =
     (case toFixed (get_prop data code) of
        Inl e \<Rightarrow> (Throw e, s)
      | Inr price \<Rightarrow>
          render data codes (s\<lparr>pricesList := pricesList s @ [\<lparr>codeSpan = code, priceSpan = price\<rparr>]\<rparr>))"

definition loadPrices :: "page \<Rightarrow> completion \<times> page" where
  "loadPrices s =
     (case JSON_parse (or_empty_object (storage s)) of
        Inl e \<Rightarrow> (Throw e, s)
      | Inr data \<Rightarrow>
          let s1 = s\<lparr>pricesList := []\<rparr> in
          (case Object_keys data of
             Inl e \<Rightarrow> (Throw e, s1)
           | Inr codes \<Rightarrow> render data codes s1))"

text \<open>
  \<open>startScanner\<close>; \<open>err\<close> says whether \<open>Quagga.init\<close> reports an error to its callback.
  What the scanner draws into its container is not modelled.
\<close>

definition startScanner :: "bool \<Rightarrow> page \<Rightarrow> page" where
  "startScanner err s =
     (let s1 = s\<lparr>priceEntry_hidden := True, scannerContainer := [], subscribed := True\<rparr> in
      if err
      then s1\<lparr>console_errors := console_errors s1 @ [''Failed to initialize Quagga:''],
              alerts := alerts s1 @ [''Unable to start barcode scanner. Please check camera permissions.'']\<rparr>
      else s1\<lparr>scanning := True\<rparr>)"

text \<open>
  The detection result: \<open>result\<close>, \<open>result.codeResult\<close> and \<open>result.codeResult.code\<close>
  may each be missing; \<open>decoded\<close> is \<open>result && result.codeResult && result.codeResult.code\<close>.
  A missing code and the empty string are falsy.
\<close>

record codeResult_t =
  code :: "string option"

record result_t =
  codeResult :: "codeResult_t option"

definition decoded :: "result_t option \<Rightarrow> string option" where
  "decoded result =
     (case result of
        None \<Rightarrow> None
      | Some r \<Rightarrow> (case codeResult r of None \<Rightarrow> None | Some cr \<Rightarrow> code cr))"

definition onDetected :: "result_t option \<Rightarrow> page \<Rightarrow> page" where
  "onDetected result s =
     (case decoded result of
        None \<Rightarrow> s
      | Some c \<Rightarrow>
          if c = [] then s
          else s\<lparr>subscribed := False,
                 scanning := False,
                 currentCode := Some c,
                 scannerContainer := [],
                 scannedCodeSpan := c,
                 priceInput_value := [],
                 priceEntry_hidden := False\<rparr>)"

text \<open>The click handler of the save button.\<close>

definition save_click :: "page \<Rightarrow> completion \<times> page" where
  "save_click s =
     (let price = parseFloat (priceInput_value s) in
      case currentCode s of
        None \<Rightarrow> (Normal, s)
      | Some c \<Rightarrow>
          if c = [] \<or> isNaN price then (Normal, s)
          else
            (case JSON_parse (or_empty_object (storage s)) of
               Inl e \<Rightarrow> (Throw e, s)
             | Inr data \<Rightarrow>
                 (case assign (strict_mode s) data c price of
                    Inl e \<Rightarrow> (Throw e, s)
                  | Inr data' \<Rightarrow>
                      let s1 = s\<lparr>storage := Some (JSON_stringify data'),
                                 setItem_calls := setItem_calls s + 1\<rparr> in
                      (case loadPrices s1 of
                         (Normal, s2) \<Rightarrow>
                           (Normal, s2\<lparr>priceEntry_hidden := True, currentCode := None\<rparr>)
                       | (r, s2) \<Rightarrow> (r, s2)))))"

subsection \<open>Notions used to state the properties\<close>

text \<open>
  The Number under an own key, when the value there is a Number; the keys that
  \<open>loadPrices\<close> gets through before an entry that is not a Number stops it; the rows it
  makes for a list of keys.
\<close>

definition entry_number :: "json \<Rightarrow> string \<Rightarrow> number option" where
  "entry_number data k = (case get_prop data k of Some (JNum x) \<Rightarrow> Some x | _ \<Rightarrow> None)"

definition numeric_keys :: "json \<Rightarrow> string list" where
  "numeric_keys data = takeWhile (\<lambda>k. entry_number data k \<noteq> None) (map fst (own_props data))"

definition all_numeric :: "json \<Rightarrow> bool" where
  "all_numeric data \<longleftrightarrow> list_all (\<lambda>k. entry_number data k \<noteq> None) (map fst (own_props data))"

definition rows :: "json \<Rightarrow> string list \<Rightarrow> li list" where
  "rows data ks =
     List.map_filter (\<lambda>k. map_option (\<lambda>x. \<lparr>codeSpan = k, priceSpan = x\<rparr>) (entry_number data k)) ks"

text \<open>
  The persisted mapping in the sense of the data model: nothing stored, the empty
  string (both read as \<open>{}\<close>), or the text of an object; \<open>members\<close> gives the object's
  own properties. It is a ledger when its keys are distinct, as the keys of an object
  are, and every value is a finite Number.
\<close>

fun members :: "item option \<Rightarrow> (string \<times> json) list option" where
  "members None = Some []"
| "members (Some EmptyString) = Some []"
| "members (Some (Serialized (JObj kvs))) = Some kvs"
| "members t = None"

fun finite_price :: "json \<Rightarrow> bool" where
  "finite_price (JNum (Finite q)) = True"
| "finite_price v = False"

definition ledger :: "(string \<times> json) list \<Rightarrow> bool" where
  "ledger kvs \<longleftrightarrow> distinct (map fst kvs) \<and> list_all (\<lambda>kv. finite_price (snd kv)) kvs"

text \<open>The price persisted for a code, and the price shown for a code in the list.\<close>

definition persisted :: "page \<Rightarrow> string \<Rightarrow> number option" where
  "persisted s k =
     (case members (storage s) of None \<Rightarrow> None | Some kvs \<Rightarrow> entry_number (JObj kvs) k)"

definition shown :: "page \<Rightarrow> string \<Rightarrow> number option" where
  "shown s = map_of (map (\<lambda>r. (codeSpan r, priceSpan r)) (pricesList s))"

text \<open>
  One save as the user performs it: the scanner reports the code, the user types the
  price, the user clicks the save button. A sequence of saves stops at the first one
  that does not complete.
\<close>

definition scan_and_save :: "string \<Rightarrow> string \<Rightarrow> page \<Rightarrow> completion \<times> page" where
  "scan_and_save c input s =
     save_click ((onDetected (Some \<lparr>codeResult = Some \<lparr>code = Some c\<rparr>\<rparr>) s)\<lparr>priceInput_value := input\<rparr>)"

fun saves :: "(string \<times> string) list \<Rightarrow> page \<Rightarrow> completion \<times> page" where
  "saves [] s = (Normal, s)"
| "saves ((c, input) # ops) s =
     (case scan_and_save c input s of
        (Normal, s') \<Rightarrow> saves ops s'
      | (r, s') \<Rightarrow> (r, s'))"

text \<open>
  Last write wins, in the specification's words: the mapping after a sequence of saves
  holds, for each code saved, the last price written for it, and is unchanged
  elsewhere. A plain save has a code that is neither empty nor \<open>__proto__\<close> and a
  price input that parses to a finite Number.
\<close>

definition last_writes :: "(string \<times> string) list \<Rightarrow> (string \<Rightarrow> number option) \<Rightarrow> string \<Rightarrow> number option" where
  "last_writes ops m = fold (\<lambda>op m'. m'(fst op \<mapsto> parseFloat (snd op))) ops m"

fun is_finite :: "number \<Rightarrow> bool" where
  "is_finite (Finite q) = True"
| "is_finite x = False"

definition plain_save :: "string \<times> string \<Rightarrow> bool" where
  "plain_save op \<longleftrightarrow> fst op \<noteq> [] \<and> fst op \<noteq> ''__proto__'' \<and> is_finite (parseFloat (snd op))"

text \<open>
  A page with nothing stored and nothing scanned, the price form hidden and the list
  empty, its script loaded as a classic script: the state the examples start from.
\<close>

definition blank :: page where
  "blank =
     \<lparr>strict_mode = False, storage = None, setItem_calls = 0, currentCode = None, priceEntry_hidden = True,
      scannedCodeSpan = [], priceInput_value = [], pricesList = [], scannerContainer = [],
      scanning = False, subscribed = False, alerts = [], console_errors = []\<rparr>"

text \<open>The specification's valid price: a finite Number that is not negative.\<close>

fun valid_price :: "number \<Rightarrow> bool" where
  "valid_price (Finite q) = (0 \<le> q)"
| "valid_price x = False"

text \<open>
  A character that can continue a decimal literal: a digit, the point, an exponent
  indicator or a sign. A tail is non-numeric when it is empty, when its first character
  cannot continue a decimal literal (whatever follows), or when none of its characters
  is a digit.
\<close>

definition numeric_char :: "char \<Rightarrow> bool" where
  "numeric_char c \<longleftrightarrow> DecimalDigit c \<or> c \<in> set ''.eE+-''"

definition non_numeric_tail :: "string \<Rightarrow> bool" where
  "non_numeric_tail t \<longleftrightarrow>
     (case t of [] \<Rightarrow> True | x # t' \<Rightarrow> \<not> numeric_char x) \<or> list_all (\<lambda>c. \<not> DecimalDigit c) t"

section \<open>Properties of the service worker\<close>

lemma fold_delete_others:
  "fold (\<lambda>cacheName cs'. if cacheName \<noteq> CACHE_NAME then caches_delete cacheName cs' else cs') ns cs
     = filter (\<lambda>(n, c). n = CACHE_NAME \<or> n \<notin> set ns) cs"
proof (induction ns arbitrary: cs)
  case Nil
  then show ?case by simp
next
  case (Cons n ns)
  have "filter (\<lambda>(m, c). m = CACHE_NAME \<or> m \<notin> set ns) (caches_delete n cs)
          = filter (\<lambda>(m, c). m = CACHE_NAME \<or> m \<notin> set (n # ns)) cs"
    if "n \<noteq> CACHE_NAME"
    using that by (induction cs) (auto simp: caches_delete_def)
  moreover have "filter (\<lambda>(m, c). m = CACHE_NAME \<or> m \<notin> set ns) cs
          = filter (\<lambda>(m, c). m = CACHE_NAME \<or> m \<notin> set (n # ns)) cs"
    if "n = CACHE_NAME"
    using that by (induction cs) auto
  ultimately show ?case
    using Cons.IH by simp
qed

lemma activate_filter: "activate cs = filter (\<lambda>(n, c). n = CACHE_NAME) cs"
proof -
  have "filter (\<lambda>(n, c). n = CACHE_NAME \<or> n \<notin> set (map fst cs)) cs
          = filter (\<lambda>(n, c). n = CACHE_NAME) cs"
    by (rule filter_cong) (auto simp: image_iff)
  then show ?thesis
    by (simp add: activate_def caches_keys_def fold_delete_others)
qed

text \<open>
  C5. After the activate phase, for every set of resident cache stores: the stores left
  are exactly the stores of the storage before whose name equals \<open>CACHE_NAME\<close>, in
  their order and with their contents. So every store of another name is gone, a store
  of the current generation stays as it was, and whether a store is deleted depends on
  its name only, never on its entries.
\<close>

theorem C5_activate_keeps_current_generation_only:
  "activate cs = filter (\<lambda>(n, c). n = CACHE_NAME) cs
   \<and> (\<forall>n c. (n, c) \<in> set cs \<and> n \<noteq> CACHE_NAME \<longrightarrow> n \<notin> set (caches_keys (activate cs)))
   \<and> (\<forall>c. (CACHE_NAME, c) \<in> set cs \<longrightarrow> (CACHE_NAME, c) \<in> set (activate cs))
   \<and> set (caches_keys (activate cs)) \<subseteq> {CACHE_NAME}
   \<and> map_of (activate cs) CACHE_NAME = map_of cs CACHE_NAME"
proof -
  have "map_of (filter (\<lambda>(n, c). n = CACHE_NAME) cs) CACHE_NAME = map_of cs CACHE_NAME"
    by (induction cs) auto
  then show ?thesis
    by (auto simp: activate_filter caches_keys_def)
qed

theorem C5_witness:
  "(''price-scanner-cache-v0'', [(''/'', \<lparr>status = 200, body = ''old''\<rparr>)])
     \<in> set [(''price-scanner-cache-v0'', [(''/'', \<lparr>status = 200, body = ''old''\<rparr>)]),
              (CACHE_NAME, [(''/'', \<lparr>status = 200, body = ''new''\<rparr>)])]
   \<and> ''price-scanner-cache-v0'' \<noteq> CACHE_NAME
   \<and> activate [(''price-scanner-cache-v0'', [(''/'', \<lparr>status = 200, body = ''old''\<rparr>)]),
               (CACHE_NAME, [(''/'', \<lparr>status = 200, body = ''new''\<rparr>)])]
       = [(CACHE_NAME, [(''/'', \<lparr>status = 200, body = ''new''\<rparr>)])]"
  using C5_activate_keeps_current_generation_only
    [of "[(''price-scanner-cache-v0'', [(''/'', \<lparr>status = 200, body = ''old''\<rparr>)]),
          (CACHE_NAME, [(''/'', \<lparr>status = 200, body = ''new''\<rparr>)])]"]
  by (simp add: CACHE_NAME_def)

lemma fetch_all_None: "fetch_all net us = None \<longleftrightarrow> (\<exists>u \<in> set us. \<not> fetch_ok net u)"
proof (induction us)
  case Nil
  then show ?case by simp
next
  case (Cons u us)
  show ?case
  proof (cases "fetch_ok net u")
    case True
    then obtain r where "net (GET u) = Some r" "addable r"
      by (auto simp: fetch_ok_def split: option.splits)
    then have "fetch_all net (u # us) = None \<longleftrightarrow> fetch_all net us = None"
      by (simp split: option.splits)
    then show ?thesis
      using Cons.IH True by simp
  next
    case False
    then show ?thesis
      by (auto simp: fetch_ok_def split: option.splits)
  qed
qed

lemma fetch_all_Some:
  "fetch_all net us = Some rs \<Longrightarrow> map fst rs = us \<and> (\<forall>u \<in> set us. map_of rs u = net (GET u))"
proof (induction us arbitrary: rs)
  case Nil
  then show ?case by simp
next
  case (Cons u us)
  then show ?case
    by (auto split: option.splits if_splits)
qed

lemma map_of_cache_put:
  "map_of (cache_put e c) u = (if u = fst e then Some (snd e) else map_of c u)"
proof -
  have "map_of (filter (\<lambda>(v, r). v \<noteq> fst e) c) u = (if u = fst e then None else map_of c u)"
    by (induction c) auto
  then show ?thesis
    by (cases e) (auto simp: cache_put_def map_add_def split: option.splits)
qed

lemma map_of_fold_cache_put:
  "distinct (map fst rs) \<Longrightarrow>
   map_of (fold cache_put rs c) u = (if u \<in> fst ` set rs then map_of rs u else map_of c u)"
proof (induction rs arbitrary: c)
  case Nil
  then show ?case by simp
next
  case (Cons e rs)
  then show ?case
    by (cases e) (auto simp: map_of_cache_put image_iff)
qed

lemma map_of_caches_store:
  "map_of (caches_store name c cs) name = (if name \<in> fst ` set cs then Some c else None)"
  by (induction cs) (auto simp: caches_store_def)

lemma caches_open_has_name:
  "caches_open name cs = (c, cs1) \<Longrightarrow> name \<in> fst ` set cs1"
proof (cases "map_of cs name")
  case None
  then show "caches_open name cs = (c, cs1) \<Longrightarrow> name \<in> fst ` set cs1"
    by (auto simp: caches_open_def)
next
  case (Some c0)
  then have "(name, c0) \<in> set cs"
    by (rule map_of_SomeD)
  then have "name \<in> fst ` set cs"
    by (rule rev_image_eqI) simp
  then show "caches_open name cs = (c, cs1) \<Longrightarrow> name \<in> fst ` set cs1"
    using Some by (auto simp: caches_open_def)
qed

lemma distinct_URLS: "distinct URLS_TO_CACHE"
  by (simp add: URLS_TO_CACHE_def)

text \<open>
  C6. The install phase is all or nothing over the asset manifest. When every one of
  the manifest's paths is fetched with success, the promise given to \<open>waitUntil\<close> is
  fulfilled and the cache store named \<open>CACHE_NAME\<close> answers a GET request for each of the
  paths with the response that was fetched for it. When the fetch of a single path
  fails, the promise is rejected, so this worker version does not finish installing, and
  no response has been stored: the storage is as \<open>caches.open\<close> left it.
\<close>

theorem C6_install_all_or_nothing:
  "(if \<forall>u \<in> set URLS_TO_CACHE. fetch_ok net u
    then fst (install net cs) = Fulfilled
         \<and> (\<exists>c. map_of (snd (install net cs)) CACHE_NAME = Some c
                \<and> (\<forall>u \<in> set URLS_TO_CACHE.
                      cache_match c (GET u) = net (GET u) \<and> cache_match c (GET u) \<noteq> None))
    else fst (install net cs) = Rejected
         \<and> snd (install net cs) = snd (caches_open CACHE_NAME cs))"
proof (cases "\<forall>u \<in> set URLS_TO_CACHE. fetch_ok net u")
  case True
  obtain c cs1 where op: "caches_open CACHE_NAME cs = (c, cs1)"
    by (cases "caches_open CACHE_NAME cs")
  from True obtain rs where rs: "fetch_all net URLS_TO_CACHE = Some rs"
    using fetch_all_None [of net URLS_TO_CACHE] by (cases "fetch_all net URLS_TO_CACHE") auto
  have inst: "install net cs = (Fulfilled, caches_store CACHE_NAME (fold cache_put rs c) cs1)"
    by (simp add: install_def op cache_addAll_def rs distinct_URLS)
  have look: "map_of (caches_store CACHE_NAME (fold cache_put rs c) cs1) CACHE_NAME
                = Some (fold cache_put rs c)"
    using caches_open_has_name [OF op] by (simp add: map_of_caches_store)
  have keys: "map fst rs = URLS_TO_CACHE" and vals: "\<forall>u \<in> set URLS_TO_CACHE. map_of rs u = net (GET u)"
    using fetch_all_Some [OF rs] by simp_all
  have "cache_match (fold cache_put rs c) (GET u) = net (GET u) \<and> net (GET u) \<noteq> None"
    if "u \<in> set URLS_TO_CACHE" for u
  proof -
    have "u \<in> fst ` set rs"
      using that keys by (metis set_map)
    moreover have "distinct (map fst rs)"
      using keys distinct_URLS by simp
    ultimately have "map_of (fold cache_put rs c) u = net (GET u)"
      using vals that by (simp add: map_of_fold_cache_put)
    moreover have "net (GET u) \<noteq> None"
      using True that by (auto simp: fetch_ok_def split: option.splits)
    ultimately show ?thesis
      by (simp add: cache_match_def GET_def)
  qed
  then show ?thesis
    using True inst look by auto
next
  case False
  then have "fetch_all net URLS_TO_CACHE = None"
    using fetch_all_None [of net URLS_TO_CACHE] by simp
  then show ?thesis
    using False by (simp add: install_def cache_addAll_def split: prod.splits)
qed

theorem C6_witness:
  "list_all (fetch_ok (\<lambda>req. Some \<lparr>status = 200, body = url req\<rparr>)) URLS_TO_CACHE
   \<and> fst (install (\<lambda>req. Some \<lparr>status = 200, body = url req\<rparr>) []) = Fulfilled
   \<and> \<not> (\<forall>u \<in> set URLS_TO_CACHE.
           fetch_ok (\<lambda>req. if url req = ''/app.js'' then None else Some \<lparr>status = 200, body = url req\<rparr>) u)
   \<and> install (\<lambda>req. if url req = ''/app.js'' then None else Some \<lparr>status = 200, body = url req\<rparr>) []
       = (Rejected, [(CACHE_NAME, [])])"
proof -
  have ok: "\<forall>u \<in> set URLS_TO_CACHE. fetch_ok (\<lambda>req. Some \<lparr>status = 200, body = url req\<rparr>) u"
    by (simp add: fetch_ok_def addable_def)
  have bad: "\<not> (\<forall>u \<in> set URLS_TO_CACHE.
           fetch_ok (\<lambda>req. if url req = ''/app.js'' then None else Some \<lparr>status = 200, body = url req\<rparr>) u)"
    by (simp add: fetch_ok_def URLS_TO_CACHE_def GET_def)
  show ?thesis
    using ok bad
      C6_install_all_or_nothing [of "\<lambda>req. Some \<lparr>status = 200, body = url req\<rparr>" "[]"]
      C6_install_all_or_nothing
        [of "\<lambda>req. if url req = ''/app.js'' then None else Some \<lparr>status = 200, body = url req\<rparr>" "[]"]
    by (simp add: caches_open_def prod_eq_iff list_all_iff)
qed

lemma caches_match_Some:
  "caches_match cs req = Some r \<Longrightarrow> \<exists>n c. (n, c) \<in> set cs \<and> cache_match c req = Some r"
  by (induction cs req rule: caches_match.induct) (auto split: option.splits)

lemma caches_match_None:
  "caches_match cs req = None \<longleftrightarrow> (\<forall>n c. (n, c) \<in> set cs \<longrightarrow> cache_match c req = None)"
  by (induction cs req rule: caches_match.induct) (auto split: option.splits)

text \<open>
  C7. For every intercepted request the cache storage is left exactly as it was, on a
  hit and on a miss. When some resident cache has an entry for the request, the result
  is such an entry (the one \<open>caches.match\<close> finds); when no resident cache has an entry
  for the request, the result is the result of the network fetch, unmodified.
\<close>

theorem C7_fetch_cache_then_network:
  "snd (on_fetch net cs req) = cs
   \<and> ((\<exists>n c. (n, c) \<in> set cs \<and> cache_match c req \<noteq> None) \<longrightarrow>
        (\<exists>n c r. (n, c) \<in> set cs \<and> cache_match c req = Some r
                 \<and> fst (on_fetch net cs req) = Some r))
   \<and> (\<forall>r. caches_match cs req = Some r \<longrightarrow> fst (on_fetch net cs req) = Some r)
   \<and> ((\<forall>n c. (n, c) \<in> set cs \<longrightarrow> cache_match c req = None) \<longrightarrow>
          fst (on_fetch net cs req) = net req)"
proof -
  have miss: "fst (on_fetch net cs req) = net req"
    if "\<forall>n c. (n, c) \<in> set cs \<longrightarrow> cache_match c req = None"
    using that caches_match_None [of cs req] by (simp add: on_fetch_def)
  have hit: "\<exists>n c r. (n, c) \<in> set cs \<and> cache_match c req = Some r
                 \<and> fst (on_fetch net cs req) = Some r"
    if "\<exists>n c. (n, c) \<in> set cs \<and> cache_match c req \<noteq> None"
  proof -
    from that obtain n0 c0 where hit0: "(n0, c0) \<in> set cs" "cache_match c0 req \<noteq> None"
      by blast
    have "caches_match cs req \<noteq> None"
    proof
      assume "caches_match cs req = None"
      then have "\<forall>n c. (n, c) \<in> set cs \<longrightarrow> cache_match c req = None"
        by (simp add: caches_match_None)
      then have "cache_match c0 req = None"
        using hit0(1) by simp
      then show False
        using hit0(2) by simp
    qed
    then obtain r where r: "caches_match cs req = Some r"
      by blast
    then obtain n c where "(n, c) \<in> set cs" "cache_match c req = Some r"
      using caches_match_Some by blast
    moreover have "fst (on_fetch net cs req) = Some r"
      using r by (simp add: on_fetch_def)
    ultimately show ?thesis
      by blast
  qed
  have found: "\<forall>r. caches_match cs req = Some r \<longrightarrow> fst (on_fetch net cs req) = Some r"
    by (simp add: on_fetch_def)
  have frame: "snd (on_fetch net cs req) = cs"
    by (simp add: on_fetch_def split: option.splits)
  show ?thesis
    using miss hit by (intro conjI frame found) blast+
qed

theorem C7_witness:
  "on_fetch (\<lambda>req. Some \<lparr>status = 200, body = ''live''\<rparr>)
      [(CACHE_NAME, [(''/app.js'', \<lparr>status = 200, body = ''cached''\<rparr>)])] (GET ''/app.js'')
     = (Some \<lparr>status = 200, body = ''cached''\<rparr>,
        [(CACHE_NAME, [(''/app.js'', \<lparr>status = 200, body = ''cached''\<rparr>)])])
   \<and> on_fetch (\<lambda>req. Some \<lparr>status = 200, body = ''live''\<rparr>)
      [(CACHE_NAME, [(''/app.js'', \<lparr>status = 200, body = ''cached''\<rparr>)])] (GET ''/quagga.js'')
     = (Some \<lparr>status = 200, body = ''live''\<rparr>,
        [(CACHE_NAME, [(''/app.js'', \<lparr>status = 200, body = ''cached''\<rparr>)])])"
  using
    C7_fetch_cache_then_network
      [of "\<lambda>req. Some \<lparr>status = 200, body = ''live''\<rparr>"
          "[(CACHE_NAME, [(''/app.js'', \<lparr>status = 200, body = ''cached''\<rparr>)])]" "GET ''/app.js''"]
    C7_fetch_cache_then_network
      [of "\<lambda>req. Some \<lparr>status = 200, body = ''live''\<rparr>"
          "[(CACHE_NAME, [(''/app.js'', \<lparr>status = 200, body = ''cached''\<rparr>)])]" "GET ''/quagga.js''"]
  by (simp add: prod_eq_iff cache_match_def GET_def)

section \<open>Properties of the price ledger\<close>

subsection \<open>Supporting lemmas\<close>

lemma toFixed_entry:
  "toFixed (get_prop data k) = (case entry_number data k of None \<Rightarrow> Inl TypeError | Some x \<Rightarrow> Inr x)"
  by (cases "get_prop data k" rule: toFixed.cases) (simp_all add: entry_number_def)

lemma rows_Cons:
  "rows data (k # ks) = (case entry_number data k of None \<Rightarrow> rows data ks
        | Some x \<Rightarrow> \<lparr>codeSpan = k, priceSpan = x\<rparr> # rows data ks)"
  by (simp add: rows_def split: option.splits)

lemma render_eq:
  "render data ks s =
     (if list_all (\<lambda>k. entry_number data k \<noteq> None) ks then Normal else Throw TypeError,
      s\<lparr>pricesList := pricesList s @ rows data (takeWhile (\<lambda>k. entry_number data k \<noteq> None) ks)\<rparr>)"
proof (induction ks arbitrary: s)
  case Nil
  then show ?case by (simp add: rows_def)
next
  case (Cons k ks)
  show ?case
  proof (cases "entry_number data k")
    case None
    then show ?thesis
      by (simp add: toFixed_entry rows_def)
  next
    case (Some x)
    then show ?thesis
      by (simp add: toFixed_entry Cons.IH rows_Cons)
  qed
qed

lemma loadPrices_Serialized:
  "storage s = Some (Serialized v) \<Longrightarrow>
   loadPrices s =
     (if v = JNull then (Throw TypeError, s\<lparr>pricesList := []\<rparr>)
      else (if all_numeric v then Normal else Throw TypeError,
            s\<lparr>pricesList := rows v (numeric_keys v)\<rparr>))"
  by (simp add: loadPrices_def Object_keys_def render_eq all_numeric_def numeric_keys_def Let_def)

lemma loadPrices_absent:
  "storage s = None \<or> storage s = Some EmptyString \<Longrightarrow> loadPrices s = (Normal, s\<lparr>pricesList := []\<rparr>)"
  by (auto simp: loadPrices_def Object_keys_def)

lemma loadPrices_Malformed:
  "storage s = Some Malformed \<Longrightarrow> loadPrices s = (Throw SyntaxError, s)"
  by (simp add: loadPrices_def)

lemma takeWhile_append_stop: "takeWhile P t = [] \<Longrightarrow> takeWhile P (u @ t) = takeWhile P u"
  by (induction u) auto

lemma dropWhile_append_stop: "takeWhile P t = [] \<Longrightarrow> dropWhile P (u @ t) = dropWhile P u @ t"
proof (induction u)
  case Nil
  then show ?case
    by (cases t) (auto split: if_splits)
next
  case (Cons a u)
  then show ?case by simp
qed

text \<open>What a non-numeric tail gives: it adds no digit, no fraction and no exponent.\<close>

lemma tail_no_digit: "non_numeric_tail t \<Longrightarrow> takeWhile DecimalDigit t = []"
  by (cases t) (auto simp: non_numeric_tail_def numeric_char_def)

lemma tail_no_fraction: "non_numeric_tail t \<Longrightarrow> fraction_digits t = []"
  by (cases t)
    (auto simp: non_numeric_tail_def numeric_char_def fraction_digits_def list_all_iff
      takeWhile_eq_Nil_iff)

lemma digit_free_after:
  assumes "list_all (\<lambda>c. \<not> DecimalDigit c) r"
  shows "ExponentPart (e # r) = 0"
proof -
  have free: "takeWhile DecimalDigit u = []" if "set u \<subseteq> set r" for u
    using that assms by (cases u) (auto simp: list_all_iff)
  have a: "takeWhile DecimalDigit r = []"
    by (rule free) simp
  have b: "takeWhile DecimalDigit (tl r) = []"
    by (rule free) (cases r; simp add: subset_insertI)
  show ?thesis
    using a b by (cases r) (simp_all add: ExponentPart_def DecimalDigits_MV_def)
qed

lemma digit_free_no_exponent:
  assumes "list_all (\<lambda>c. \<not> DecimalDigit c) t"
  shows "ExponentPart t = 0"
proof (cases t)
  case Nil
  then show ?thesis by (simp add: ExponentPart_def)
next
  case (Cons c r)
  then have "list_all (\<lambda>c. \<not> DecimalDigit c) r"
    using assms by simp
  then show ?thesis
    unfolding Cons by (rule digit_free_after)
qed

lemma tail_no_exponent: "non_numeric_tail t \<Longrightarrow> ExponentPart t = 0"
proof (cases "list_all (\<lambda>c. \<not> DecimalDigit c) t")
  case True
  then show ?thesis by (rule digit_free_no_exponent)
next
  case False
  assume "non_numeric_tail t"
  then show ?thesis
    using False by (cases t) (auto simp: non_numeric_tail_def numeric_char_def ExponentPart_def)
qed

lemma tail_after_indicator:
  assumes "non_numeric_tail t"
  shows "ExponentPart (e # t) = 0"
proof (cases "list_all (\<lambda>c. \<not> DecimalDigit c) t")
  case True
  then show ?thesis by (rule digit_free_after)
next
  case False
  then show ?thesis
    using assms
    by (cases t) (auto simp: non_numeric_tail_def numeric_char_def ExponentPart_def DecimalDigits_MV_def)
qed

lemma tail_after_fraction:
  assumes "non_numeric_tail t"
  shows "ExponentPart (after_fraction t) = 0"
proof (cases "list_all (\<lambda>c. \<not> DecimalDigit c) t")
  case True
  have "list_all (\<lambda>c. \<not> DecimalDigit c) (after_fraction t)"
  proof (cases t)
    case Nil
    then show ?thesis by (simp add: after_fraction_def)
  next
    case (Cons c r)
    have "set (dropWhile DecimalDigit r) \<subseteq> set r"
      by (auto dest: set_dropWhileD)
    then show ?thesis
      using True Cons by (auto simp: after_fraction_def list_all_iff)
  qed
  then show ?thesis by (rule digit_free_no_exponent)
next
  case False
  then have "after_fraction t = t"
    using assms by (cases t) (auto simp: non_numeric_tail_def numeric_char_def after_fraction_def)
  then show ?thesis
    using assms by (simp add: tail_no_exponent)
qed

lemma ExponentPart_append:
  assumes "non_numeric_tail t"
  shows "ExponentPart (r @ t) = ExponentPart r"
proof (cases r)
  case Nil
  then show ?thesis
    using assms by (simp add: tail_no_exponent) (simp add: ExponentPart_def)
next
  case (Cons e r')
  show ?thesis
  proof (cases r')
    case Nil
    have "ExponentPart [e] = 0"
      by (simp add: ExponentPart_def)
    then show ?thesis
      using \<open>r = e # r'\<close> Nil tail_after_indicator [OF assms, of e] by simp
  next
    case (Cons d r'')
    then show ?thesis
      using \<open>r = e # r'\<close>
        takeWhile_append_stop [OF tail_no_digit [OF assms], of r'']
        takeWhile_append_stop [OF tail_no_digit [OF assms], of "d # r''"]
      by (simp add: ExponentPart_def)
  qed
qed

lemma fraction_digits_append:
  assumes "non_numeric_tail t"
  shows "fraction_digits (r @ t) = fraction_digits r"
proof (cases r)
  case Nil
  then show ?thesis
    using assms by (simp add: tail_no_fraction) (simp add: fraction_digits_def)
next
  case (Cons c r')
  then show ?thesis
    using takeWhile_append_stop [OF tail_no_digit [OF assms], of r']
    by (simp add: fraction_digits_def)
qed

lemma after_fraction_append:
  assumes "non_numeric_tail t"
  shows "ExponentPart (after_fraction (r @ t)) = ExponentPart (after_fraction r)"
proof (cases r)
  case Nil
  then show ?thesis
    using assms by (simp add: tail_after_fraction) (simp add: after_fraction_def ExponentPart_def)
next
  case (Cons c r')
  show ?thesis
  proof (cases "c = CHR ''.''")
    case True
    then have "after_fraction (r @ t) = after_fraction r @ t"
      using Cons dropWhile_append_stop [OF tail_no_digit [OF assms], of r']
      by (simp add: after_fraction_def)
    then show ?thesis
      using assms by (simp add: ExponentPart_append)
  next
    case False
    then have "after_fraction (r @ t) = after_fraction r @ t"
      using Cons by (simp add: after_fraction_def)
    then show ?thesis
      using assms by (simp add: ExponentPart_append)
  qed
qed

lemma no_literal_in_Infinity:
  assumes "StrUnsignedDecimalLiteral u \<noteq> None" and "take 8 (u @ v) = ''Infinity''"
  shows "take 8 u = ''Infinity''"
proof (cases "8 \<le> length u")
  case True
  then show ?thesis using assms(2) by simp
next
  case False
  have start: "u = [] \<or> hd u = CHR ''I''"
  proof (cases u)
    case Nil
    then show ?thesis by simp
  next
    case (Cons a u')
    then have "hd (take 8 (u @ v)) = a" by simp
    then show ?thesis using assms(2) Cons by simp
  qed
  have "take 8 u \<noteq> ''Infinity''"
  proof
    assume "take 8 u = ''Infinity''"
    then have "length (take 8 u) = 8" by simp
    then show False using False by simp
  qed
  then have "StrUnsignedDecimalLiteral u = None"
    using start
    by (cases u) (auto simp: StrUnsignedDecimalLiteral_def DecimalDigit_def fraction_digits_def)
  then show ?thesis using assms(1) by simp
qed

lemma literal_append:
  assumes lit: "StrUnsignedDecimalLiteral u \<noteq> None" and t: "non_numeric_tail t"
  shows "StrUnsignedDecimalLiteral (u @ t) = StrUnsignedDecimalLiteral u"
proof (cases "take 8 u = ''Infinity''")
  case True
  then have "length (take 8 u) = 8" by simp
  then have "8 \<le> length u" by simp
  then show ?thesis
    using True by (simp add: StrUnsignedDecimalLiteral_def)
next
  case False
  then have inf: "take 8 (u @ t) \<noteq> ''Infinity''"
    using no_literal_in_Infinity [OF lit] by blast
  have ip: "takeWhile DecimalDigit (u @ t) = takeWhile DecimalDigit u"
    using tail_no_digit [OF t] by (rule takeWhile_append_stop)
  have r1: "dropWhile DecimalDigit (u @ t) = dropWhile DecimalDigit u @ t"
    using tail_no_digit [OF t] by (rule dropWhile_append_stop)
  show ?thesis
    unfolding StrUnsignedDecimalLiteral_def Let_def ip r1
      fraction_digits_append [OF t] after_fraction_append [OF t]
    using False inf by simp
qed

lemma parseFloat_append:
  assumes "parseFloat p \<noteq> NaN" and t: "non_numeric_tail t"
  shows "parseFloat (p @ t) = parseFloat p"
proof (cases "dropWhile StrWhiteSpaceChar p")
  case Nil
  have "parseFloat p = NaN"
    unfolding parseFloat_def Nil by simp
  then show ?thesis using assms(1) by simp
next
  case (Cons a r)
  then have "\<exists>x \<in> set p. \<not> StrWhiteSpaceChar x"
    by (metis dropWhile_eq_Nil_conv list.distinct(1))
  then obtain x where "x \<in> set p" "\<not> StrWhiteSpaceChar x"
    by blast
  then have "dropWhile StrWhiteSpaceChar (p @ t) = dropWhile StrWhiteSpaceChar p @ t"
    by (rule dropWhile_append1)
  then have dw: "dropWhile StrWhiteSpaceChar (p @ t) = a # (r @ t)"
    unfolding Cons by simp
  have lits: "StrUnsignedDecimalLiteral (u @ t) = StrUnsignedDecimalLiteral u"
    if "StrUnsignedDecimalLiteral u \<noteq> None" for u
    using that t by (rule literal_append)
  show ?thesis
  proof (cases "a = CHR ''-'' \<or> a = CHR ''+''")
    case True
    then have "StrUnsignedDecimalLiteral r \<noteq> None"
      using assms(1) Cons by (auto simp: parseFloat_def split: option.splits)
    then show ?thesis
      using True Cons dw lits [of r] by (auto simp: parseFloat_def)
  next
    case False
    then have "StrUnsignedDecimalLiteral (a # r) \<noteq> None"
      using assms(1) Cons by (auto simp: parseFloat_def split: option.splits)
    then show ?thesis
      using False Cons dw lits [of "a # r"] by (auto simp: parseFloat_def)
  qed
qed

lemma members_parse:
  "members t = Some kvs \<Longrightarrow> JSON_parse (or_empty_object t) = Inr (JObj kvs)"
  by (induction t rule: members.induct) simp_all

lemma finite_price_reread: "finite_price v \<Longrightarrow> reread v = v"
  by (induction v rule: finite_price.induct) simp_all

lemma ledger_reread: "ledger kvs \<Longrightarrow> reread (JObj kvs) = JObj kvs"
proof -
  have "list_all (\<lambda>kv. finite_price (snd kv)) kvs \<Longrightarrow>
        map (\<lambda>kv. (fst kv, reread (snd kv))) kvs = kvs"
    by (induction kvs) (simp_all add: finite_price_reread)
  then show "ledger kvs \<Longrightarrow> reread (JObj kvs) = JObj kvs"
    by (simp add: ledger_def)
qed

lemma map_of_replace:
  "map_of (map (\<lambda>kv. if fst kv = k then (k, v) else kv) kvs) =
     (if k \<in> fst ` set kvs then (map_of kvs)(k \<mapsto> v) else map_of kvs)"
  by (induction kvs) (auto simp: fun_upd_twist)

lemma map_of_insert_between:
  "k \<notin> fst ` set (xs @ ys) \<Longrightarrow> map_of (xs @ (k, v) # ys) = (map_of (xs @ ys))(k \<mapsto> v)"
  by (induction xs) (auto simp: fun_upd_twist)

lemma object_set_cases:
  obtains
    (own) "k \<in> fst ` set kvs"
      "object_set kvs k x = map (\<lambda>kv. if fst kv = k then (k, JNum x) else kv) kvs"
  | (proto) "k \<notin> fst ` set kvs" "k = ''__proto__''" "object_set kvs k x = kvs"
  | (new) xs ys where "k \<notin> fst ` set kvs" "k \<noteq> ''__proto__''" "kvs = xs @ ys"
      "object_set kvs k x = xs @ (k, JNum x) # ys"
proof (cases "k \<in> fst ` set kvs")
  case True
  then show ?thesis
    using own by (simp add: object_set_def)
next
  case notin: False
  show ?thesis
  proof (cases "k = ''__proto__''")
    case True
    then show ?thesis
      using notin proto by (simp add: object_set_def)
  next
    case False
    show ?thesis
    proof (cases "array_index k")
      case None
      then have "object_set kvs k x = kvs @ (k, JNum x) # []"
        using notin False by (simp add: object_set_def)
      then show ?thesis
        using new [of kvs "[]"] notin False by simp
    next
      case (Some i)
      then have "object_set kvs k x
          = takeWhile (index_before i) kvs @ (k, JNum x) # dropWhile (index_before i) kvs"
        using notin False by (simp add: object_set_def)
      then show ?thesis
        using new [of "takeWhile (index_before i) kvs" "dropWhile (index_before i) kvs"] notin False
        by simp
    qed
  qed
qed

lemma map_of_object_set:
  "map_of (object_set kvs k x) =
     (if k \<notin> fst ` set kvs \<and> k = ''__proto__'' then map_of kvs else (map_of kvs)(k \<mapsto> JNum x))"
proof (cases rule: object_set_cases [of k kvs x])
  case own
  then show ?thesis by (simp add: map_of_replace)
next
  case proto
  then show ?thesis by simp
next
  case (new xs ys)
  then have "k \<notin> fst ` set (xs @ ys)" by simp
  then have "map_of (xs @ (k, JNum x) # ys) = (map_of (xs @ ys))(k \<mapsto> JNum x)"
    by (rule map_of_insert_between)
  then show ?thesis
    using new by simp
qed

lemma distinct_object_set:
  assumes "distinct (map fst kvs)"
  shows "distinct (map fst (object_set kvs k x))"
proof (cases rule: object_set_cases [of k kvs x])
  case own
  have "map fst (map (\<lambda>kv. if fst kv = k then (k, JNum x) else kv) kvs) = map fst kvs"
    by (induction kvs) auto
  then have "map fst (object_set kvs k x) = map fst kvs"
    by (simp only: own)
  then show ?thesis using assms by (simp only:)
next
  case proto
  then show ?thesis using assms by simp
next
  case (new xs ys)
  then show ?thesis using assms by auto
qed

lemma values_object_set:
  assumes "list_all (\<lambda>kv. finite_price (snd kv)) kvs"
  shows "list_all (\<lambda>kv. finite_price (snd kv)) (object_set kvs k (Finite q))"
proof (cases rule: object_set_cases [of k kvs "Finite q"])
  case own
  then show ?thesis using assms by (auto simp: list_all_iff)
next
  case proto
  then show ?thesis using assms by simp
next
  case (new xs ys)
  then show ?thesis using assms by (auto simp: list_all_iff)
qed

lemma ledger_object_set: "ledger kvs \<Longrightarrow> ledger (object_set kvs k (Finite q))"
  by (simp add: ledger_def distinct_object_set values_object_set)

lemma entry_number_JObj:
  "entry_number (JObj kvs) k = (case map_of kvs k of Some (JNum x) \<Rightarrow> Some x | _ \<Rightarrow> None)"
  by (simp add: entry_number_def get_prop_def)

lemma ledger_entry:
  assumes "ledger kvs" and "k \<in> fst ` set kvs"
  shows "\<exists>q. map_of kvs k = Some (JNum (Finite q))"
proof -
  from assms(2) obtain v where "map_of kvs k = Some v"
    by (metis domD dom_map_of_conv_image_fst)
  then have "(k, v) \<in> set kvs"
    by (rule map_of_SomeD)
  then have "finite_price v"
    using assms(1) by (auto simp: ledger_def list_all_iff)
  then obtain q where "v = JNum (Finite q)"
    by (cases v rule: finite_price.cases) auto
  then show ?thesis
    using \<open>map_of kvs k = Some v\<close> by simp
qed

lemma ledger_all_numeric:
  assumes "ledger kvs"
  shows "all_numeric (JObj kvs)" and "numeric_keys (JObj kvs) = map fst kvs"
proof -
  have every: "\<forall>k \<in> set (map fst kvs). entry_number (JObj kvs) k \<noteq> None"
    using ledger_entry [OF assms] by (fastforce simp: entry_number_JObj)
  then show "all_numeric (JObj kvs)"
    by (simp add: all_numeric_def list_all_iff)
  show "numeric_keys (JObj kvs) = map fst kvs"
    unfolding numeric_keys_def using every by (simp add: takeWhile_eq_all_conv)
qed

lemma shown_rows:
  "map_of (map (\<lambda>r. (codeSpan r, priceSpan r)) (rows data ks)) k =
     (if k \<in> set ks then entry_number data k else None)"
  by (induction ks) (auto simp: rows_def split: option.splits)

lemma codes_rows:
  "map codeSpan (rows data ks) = filter (\<lambda>k. entry_number data k \<noteq> None) ks"
  by (induction ks) (auto simp: rows_def split: option.splits)

lemma loadPrices_ledger:
  assumes "storage s = Some (Serialized (JObj kvs))" and "ledger kvs"
  shows "loadPrices s = (Normal, s\<lparr>pricesList := rows (JObj kvs) (map fst kvs)\<rparr>)"
  using loadPrices_Serialized [OF assms(1)] ledger_all_numeric [OF assms(2)] by simp

lemma save_click_ledger:
  assumes m: "members (storage s) = Some kvs" and l: "ledger kvs"
    and c: "currentCode s = Some c" "c \<noteq> []"
    and p: "parseFloat (priceInput_value s) = Finite q"
  shows "save_click s =
     (Normal,
      s\<lparr>storage := Some (Serialized (JObj (object_set kvs c (Finite q)))),
        setItem_calls := setItem_calls s + 1,
        pricesList := rows (JObj (object_set kvs c (Finite q)))
                        (map fst (object_set kvs c (Finite q))),
        priceEntry_hidden := True,
        currentCode := None\<rparr>)"
proof -
  let ?kvs' = "object_set kvs c (Finite q)"
  let ?s1 = "s\<lparr>storage := Some (JSON_stringify (JObj ?kvs')), setItem_calls := setItem_calls s + 1\<rparr>"
  have l': "ledger ?kvs'"
    using l by (rule ledger_object_set)
  have st: "JSON_stringify (JObj ?kvs') = Serialized (JObj ?kvs')"
    using ledger_reread [OF l'] by (simp add: JSON_stringify_def)
  have "storage ?s1 = Some (Serialized (JObj ?kvs'))"
    by (simp add: st)
  then have load: "loadPrices ?s1 = (Normal, ?s1\<lparr>pricesList := rows (JObj ?kvs') (map fst ?kvs')\<rparr>)"
    using l' by (rule loadPrices_ledger)
  have parse: "JSON_parse (or_empty_object (storage s)) = Inr (JObj kvs)"
    using m by (rule members_parse)
  show ?thesis
    using load unfolding save_click_def Let_def
    by (simp add: c p isNaN_def parse st)
qed


lemma persisted_members:
  "members (storage s) = Some kvs \<Longrightarrow>
   persisted s k = (case map_of kvs k of Some (JNum x) \<Rightarrow> Some x | _ \<Rightarrow> None)"
  by (simp add: persisted_def entry_number_JObj)

lemma persisted_after_set:
  assumes "members (storage s') = Some (object_set kvs c x)"
    and "members (storage s) = Some kvs"
    and "c \<noteq> ''__proto__'' \<or> c \<in> fst ` set kvs"
  shows "persisted s' = (persisted s)(c \<mapsto> x)"
proof
  fix k
  show "persisted s' k = ((persisted s)(c \<mapsto> x)) k"
    using assms(3)
    by (auto simp: persisted_members [OF assms(1)] persisted_members [OF assms(2)] map_of_object_set)
qed

lemma shown_ledger:
  assumes "pricesList s = rows (JObj kvs) (map fst kvs)" and "members (storage s) = Some kvs"
  shows "shown s = persisted s"
proof
  fix k
  have "entry_number (JObj kvs) k = None" if "k \<notin> set (map fst kvs)"
  proof -
    from that have "map_of kvs k = None"
      by (simp add: map_of_eq_None_iff)
    then show ?thesis
      by (simp add: entry_number_JObj)
  qed
  then show "shown s k = persisted s k"
    using assms by (auto simp: shown_def shown_rows persisted_def)
qed

lemma codes_ledger:
  assumes "ledger kvs"
  shows "map codeSpan (rows (JObj kvs) (map fst kvs)) = map fst kvs"
proof -
  have "\<forall>k \<in> set (map fst kvs). entry_number (JObj kvs) k \<noteq> None"
    using ledger_entry [OF assms] by (fastforce simp: entry_number_JObj)
  then show ?thesis
    by (simp add: codes_rows)
qed

lemma scan_and_save_ledger:
  assumes m: "members (storage s) = Some kvs" and l: "ledger kvs"
    and c: "c \<noteq> []" and p: "parseFloat input = Finite q"
  shows "\<exists>s'. scan_and_save c input s = (Normal, s')
          \<and> storage s' = Some (Serialized (JObj (object_set kvs c (Finite q))))
          \<and> members (storage s') = Some (object_set kvs c (Finite q))
          \<and> pricesList s' = rows (JObj (object_set kvs c (Finite q)))
                               (map fst (object_set kvs c (Finite q)))
          \<and> currentCode s' = None \<and> priceEntry_hidden s'
          \<and> setItem_calls s' = setItem_calls s + 1"
proof -
  let ?s0 = "(onDetected (Some \<lparr>codeResult = Some \<lparr>code = Some c\<rparr>\<rparr>) s)\<lparr>priceInput_value := input\<rparr>"
  have st: "storage ?s0 = storage s" and cc: "currentCode ?s0 = Some c"
    and pi: "priceInput_value ?s0 = input" and n: "setItem_calls ?s0 = setItem_calls s"
    using c by (simp_all add: onDetected_def decoded_def)
  have "members (storage ?s0) = Some kvs"
    using m st by simp
  from save_click_ledger [OF this l cc c, of q] p pi
  show ?thesis
    unfolding scan_and_save_def using n by simp
qed

lemmas parse_defs =
  parseFloat_def StrUnsignedDecimalLiteral_def fraction_digits_def after_fraction_def
  StrWhiteSpaceChar_def DecimalDigit_def ExponentPart_def DecimalDigits_MV_def digit_value_def
  scale10_def Number_value_def isNaN_def

subsection \<open>Loading\<close>

text \<open>
  C1, as stated, fails: with a stored string that is not a JSON text, \<open>JSON.parse\<close>
  throws a SyntaxError, nothing in \<open>loadPrices\<close> catches it, and the caller receives
  it instead of an empty list.
\<close>

theorem C1_malformed_storage_throws:
  "loadPrices (blank\<lparr>storage := Some Malformed\<rparr>)
     = (Throw SyntaxError, blank\<lparr>storage := Some Malformed\<rparr>)"
  by (simp add: loadPrices_def)

text \<open>
  C1, amended. What \<open>loadPrices\<close> does for every stored state:
  \<^item> nothing stored, or the empty string: it completes and the list is empty;
  \<^item> a string that is not a JSON text: it throws a SyntaxError to its caller and the
    page, the list included, is as it was;
  \<^item> the JSON text \<open>null\<close>: it throws a TypeError, the list is empty;
  \<^item> any other JSON text: the list holds the rows of the entries up to the first one
    that is not a Number; it completes when every entry is a Number and throws a
    TypeError otherwise;
  \<^item> in particular, for the text of a ledger it completes and shows exactly the
    persisted mapping;
  \<^item> a list that is not empty after a normal completion comes from a stored JSON text
    with at least one entry, all of whose entries are Numbers.
\<close>

theorem C1_load_outcomes:
  "(storage s = None \<or> storage s = Some EmptyString \<longrightarrow>
      loadPrices s = (Normal, s\<lparr>pricesList := []\<rparr>))
   \<and> (storage s = Some Malformed \<longrightarrow> loadPrices s = (Throw SyntaxError, s))
   \<and> (storage s = Some (Serialized JNull) \<longrightarrow>
        loadPrices s = (Throw TypeError, s\<lparr>pricesList := []\<rparr>))
   \<and> (\<forall>v. storage s = Some (Serialized v) \<and> v \<noteq> JNull \<longrightarrow>
          loadPrices s =
            (if all_numeric v then Normal else Throw TypeError,
             s\<lparr>pricesList := rows v (numeric_keys v)\<rparr>))
   \<and> (\<forall>kvs. storage s = Some (Serialized (JObj kvs)) \<and> ledger kvs \<longrightarrow>
          loadPrices s = (Normal, s\<lparr>pricesList := rows (JObj kvs) (map fst kvs)\<rparr>)
          \<and> shown (snd (loadPrices s)) = persisted s)
   \<and> (fst (loadPrices s) = Normal \<and> pricesList (snd (loadPrices s)) \<noteq> [] \<longrightarrow>
        (\<exists>v. storage s = Some (Serialized v) \<and> v \<noteq> JNull \<and> all_numeric v \<and> own_props v \<noteq> []))"
proof -
  have led: "loadPrices s = (Normal, s\<lparr>pricesList := rows (JObj kvs) (map fst kvs)\<rparr>)
      \<and> shown (snd (loadPrices s)) = persisted s"
    if st: "storage s = Some (Serialized (JObj kvs))" and l: "ledger kvs" for kvs
  proof -
    have load: "loadPrices s = (Normal, s\<lparr>pricesList := rows (JObj kvs) (map fst kvs)\<rparr>)"
      using st l by (rule loadPrices_ledger)
    have "shown (s\<lparr>pricesList := rows (JObj kvs) (map fst kvs)\<rparr>)
        = persisted (s\<lparr>pricesList := rows (JObj kvs) (map fst kvs)\<rparr>)"
      using st by (intro shown_ledger [of _ kvs]) simp_all
    moreover have "persisted (s\<lparr>pricesList := rows (JObj kvs) (map fst kvs)\<rparr>) = persisted s"
      by (rule ext) (simp add: persisted_def)
    ultimately show ?thesis
      using load by simp
  qed
  have nonempty: "\<exists>v. storage s = Some (Serialized v) \<and> v \<noteq> JNull \<and> all_numeric v \<and> own_props v \<noteq> []"
    if n: "fst (loadPrices s) = Normal" and ne: "pricesList (snd (loadPrices s)) \<noteq> []"
  proof (cases "storage s")
    case None
    then show ?thesis using ne by (simp add: loadPrices_absent)
  next
    case (Some t)
    show ?thesis
    proof (cases t)
      case EmptyString
      then show ?thesis using Some ne by (simp add: loadPrices_absent)
    next
      case Malformed
      then show ?thesis using Some n by (simp add: loadPrices_Malformed)
    next
      case (Serialized v)
      then have st: "storage s = Some (Serialized v)"
        using Some by simp
      have "v \<noteq> JNull" "all_numeric v"
        using n loadPrices_Serialized [OF st] by (auto split: if_splits)
      moreover have "own_props v \<noteq> []"
        using ne loadPrices_Serialized [OF st] \<open>v \<noteq> JNull\<close>
        by (auto simp: numeric_keys_def rows_def)
      ultimately show ?thesis
        using st by blast
    qed
  qed
  have absent: "storage s = None \<or> storage s = Some EmptyString \<longrightarrow>
      loadPrices s = (Normal, s\<lparr>pricesList := []\<rparr>)"
    using loadPrices_absent [of s] by blast
  have malformed: "storage s = Some Malformed \<longrightarrow> loadPrices s = (Throw SyntaxError, s)"
    using loadPrices_Malformed [of s] by blast
  have null: "storage s = Some (Serialized JNull) \<longrightarrow>
        loadPrices s = (Throw TypeError, s\<lparr>pricesList := []\<rparr>)"
    using loadPrices_Serialized [of s JNull] by simp
  have other: "\<forall>v. storage s = Some (Serialized v) \<and> v \<noteq> JNull \<longrightarrow>
          loadPrices s =
            (if all_numeric v then Normal else Throw TypeError,
             s\<lparr>pricesList := rows v (numeric_keys v)\<rparr>)"
    using loadPrices_Serialized [of s] by simp
  show ?thesis
    using led nonempty by (intro conjI absent malformed null other) blast+
qed

theorem C1_witness:
  "loadPrices blank = (Normal, blank)
   \<and> loadPrices (blank\<lparr>storage := Some EmptyString\<rparr>) = (Normal, blank\<lparr>storage := Some EmptyString\<rparr>)
   \<and> fst (loadPrices (blank\<lparr>storage := Some Malformed\<rparr>)) = Throw SyntaxError
   \<and> fst (loadPrices (blank\<lparr>storage := Some (Serialized JNull)\<rparr>)) = Throw TypeError
   \<and> ledger [(''012345678905'', JNum (Finite (399 / 100)))]
   \<and> pricesList (snd (loadPrices
        (blank\<lparr>storage := Some (Serialized (JObj [(''012345678905'', JNum (Finite (399 / 100)))]))\<rparr>)))
       = [\<lparr>codeSpan = ''012345678905'', priceSpan = Finite (399 / 100)\<rparr>]"
proof -
  have "storage blank = None \<or> storage blank = Some EmptyString \<longrightarrow>
      loadPrices blank = (Normal, blank\<lparr>pricesList := []\<rparr>)"
    using C1_load_outcomes [of blank] by (rule conjunct1)
  then have a: "loadPrices blank = (Normal, blank)"
    by (simp add: blank_def)
  have "storage (blank\<lparr>storage := Some EmptyString\<rparr>) = None
      \<or> storage (blank\<lparr>storage := Some EmptyString\<rparr>) = Some EmptyString \<longrightarrow>
      loadPrices (blank\<lparr>storage := Some EmptyString\<rparr>)
        = (Normal, blank\<lparr>storage := Some EmptyString, pricesList := []\<rparr>)"
    using C1_load_outcomes [of "blank\<lparr>storage := Some EmptyString\<rparr>"] by (rule conjunct1)
  then have b: "loadPrices (blank\<lparr>storage := Some EmptyString\<rparr>)
      = (Normal, blank\<lparr>storage := Some EmptyString\<rparr>)"
    by (simp add: blank_def)
  have "storage (blank\<lparr>storage := Some Malformed\<rparr>) = Some Malformed \<longrightarrow>
      loadPrices (blank\<lparr>storage := Some Malformed\<rparr>)
        = (Throw SyntaxError, blank\<lparr>storage := Some Malformed\<rparr>)"
    using C1_load_outcomes [of "blank\<lparr>storage := Some Malformed\<rparr>"] by blast
  then have c: "fst (loadPrices (blank\<lparr>storage := Some Malformed\<rparr>)) = Throw SyntaxError"
    by simp
  have "storage (blank\<lparr>storage := Some (Serialized JNull)\<rparr>) = Some (Serialized JNull) \<longrightarrow>
      loadPrices (blank\<lparr>storage := Some (Serialized JNull)\<rparr>)
        = (Throw TypeError, blank\<lparr>storage := Some (Serialized JNull), pricesList := []\<rparr>)"
    using C1_load_outcomes [of "blank\<lparr>storage := Some (Serialized JNull)\<rparr>"] by blast
  then have d: "fst (loadPrices (blank\<lparr>storage := Some (Serialized JNull)\<rparr>)) = Throw TypeError"
    by simp
  let ?kvs = "[(''012345678905'', JNum (Finite (399 / 100)))]"
  let ?s = "blank\<lparr>storage := Some (Serialized (JObj ?kvs))\<rparr>"
  have l: "ledger ?kvs"
    by (simp add: ledger_def)
  have "\<forall>kvs. storage ?s = Some (Serialized (JObj kvs)) \<and> ledger kvs \<longrightarrow>
          loadPrices ?s = (Normal, ?s\<lparr>pricesList := rows (JObj kvs) (map fst kvs)\<rparr>)
          \<and> shown (snd (loadPrices ?s)) = persisted ?s"
    using C1_load_outcomes [of ?s] by blast
  then have "loadPrices ?s = (Normal, ?s\<lparr>pricesList := rows (JObj ?kvs) (map fst ?kvs)\<rparr>)"
    using l by simp
  then have e: "pricesList (snd (loadPrices ?s))
      = [\<lparr>codeSpan = ''012345678905'', priceSpan = Finite (399 / 100)\<rparr>]"
    by (simp add: rows_def entry_number_def get_prop_def)
  show ?thesis
    using a b c d l e by (intro conjI)
qed

subsection \<open>Saving\<close>

text \<open>
  C2, at the input where the code departs from it. A scanned code that reads
  \<open>__proto__\<close> is a non-empty code like any other for the specification, \<open>3.99\<close> is
  a valid price, and last write wins asks for that price to be in the mapping
  afterwards. In the script the assignment \<open>data['__proto__'] = price\<close> goes to the
  setter inherited from \<open>Object.prototype\<close>, which ignores a number: the save
  completes, writes the text of an empty object, and the price is lost.
\<close>

theorem C2_code_named_proto_is_not_persisted:
  "valid_price (parseFloat ''3.99'')
   \<and> fst (saves [(''__proto__'', ''3.99'')] blank) = Normal
   \<and> storage (snd (saves [(''__proto__'', ''3.99'')] blank)) = Some (Serialized (JObj []))
   \<and> persisted (snd (saves [(''__proto__'', ''3.99'')] blank)) ''__proto__'' = None
   \<and> last_writes [(''__proto__'', ''3.99'')] (persisted blank) ''__proto__'' = Some (Finite (399 / 100))"
proof -
  have p: "parseFloat ''3.99'' = Finite (399 / 100)"
    by (simp add: parse_defs)
  have "\<exists>s'. scan_and_save ''__proto__'' ''3.99'' blank = (Normal, s')
          \<and> storage s' = Some (Serialized (JObj (object_set [] ''__proto__'' (Finite (399 / 100)))))
          \<and> members (storage s') = Some (object_set [] ''__proto__'' (Finite (399 / 100)))
          \<and> pricesList s' = rows (JObj (object_set [] ''__proto__'' (Finite (399 / 100))))
                               (map fst (object_set [] ''__proto__'' (Finite (399 / 100))))
          \<and> currentCode s' = None \<and> priceEntry_hidden s'
          \<and> setItem_calls s' = setItem_calls blank + 1"
    by (rule scan_and_save_ledger [OF _ _ _ p]) (simp_all add: blank_def ledger_def)
  then obtain s' where s': "scan_and_save ''__proto__'' ''3.99'' blank = (Normal, s')"
    and st: "storage s' = Some (Serialized (JObj (object_set [] ''__proto__'' (Finite (399 / 100)))))"
    by blast
  have os: "object_set [] ''__proto__'' (Finite (399 / 100)) = []"
    by (simp add: object_set_def)
  have run: "saves [(''__proto__'', ''3.99'')] blank = (Normal, s')"
    using s' by simp
  have "persisted s' ''__proto__'' = None"
    using st os by (simp add: persisted_def entry_number_def get_prop_def)
  moreover have "last_writes [(''__proto__'', ''3.99'')] (persisted blank) ''__proto__''
      = Some (Finite (399 / 100))"
    using p by (simp add: last_writes_def)
  moreover have "valid_price (parseFloat ''3.99'')"
    using p by simp
  ultimately show ?thesis
    using run st os by simp
qed

lemma last_writes_snoc_step:
  "last_writes (op # ops) m = last_writes ops (m(fst op \<mapsto> parseFloat (snd op)))"
  by (simp add: last_writes_def)

text \<open>
  For every other code the script does keep the last write. Starting from nothing
  stored or from a stored ledger, a sequence of saves with non-empty codes other than
  \<open>__proto__\<close> and prices that parse to finite Numbers completes; the persisted mapping
  is then the one of last write wins, it is again a ledger (one entry for each code),
  and loading it shows exactly that mapping, one row for each code.
\<close>

lemma last_write_wins:
  assumes "members (storage s) = Some kvs" and "ledger kvs" and "list_all plain_save ops"
  shows "\<exists>s' kvs'. saves ops s = (Normal, s')
           \<and> members (storage s') = Some kvs' \<and> ledger kvs'
           \<and> persisted s' = last_writes ops (persisted s)
           \<and> loadPrices s' = (Normal, s'\<lparr>pricesList := rows (JObj kvs') (map fst kvs')\<rparr>)
           \<and> shown (snd (loadPrices s')) = last_writes ops (persisted s)
           \<and> distinct (map codeSpan (pricesList (snd (loadPrices s'))))"
  using assms
proof (induction ops arbitrary: s kvs)
  case Nil
  have load: "loadPrices s = (Normal, s\<lparr>pricesList := rows (JObj kvs) (map fst kvs)\<rparr>)"
  proof (cases "storage s")
    case None
    then show ?thesis
      using Nil.prems(1) by (simp add: loadPrices_absent rows_def)
  next
    case (Some t)
    show ?thesis
    proof (cases "t = EmptyString")
      case True
      then show ?thesis
        using Some Nil.prems(1) by (simp add: loadPrices_absent rows_def)
    next
      case False
      then have "t = Serialized (JObj kvs)"
        using Some Nil.prems(1) by (cases "Some t" rule: members.cases) auto
      then show ?thesis
        using Some Nil.prems(2) by (simp add: loadPrices_ledger)
    qed
  qed
  have "members (storage (s\<lparr>pricesList := rows (JObj kvs) (map fst kvs)\<rparr>)) = Some kvs"
    using Nil.prems(1) by simp
  then have "shown (s\<lparr>pricesList := rows (JObj kvs) (map fst kvs)\<rparr>)
        = persisted (s\<lparr>pricesList := rows (JObj kvs) (map fst kvs)\<rparr>)"
    by (intro shown_ledger) simp_all
  moreover have "persisted (s\<lparr>pricesList := rows (JObj kvs) (map fst kvs)\<rparr>) = persisted s"
    by (rule ext) (simp add: persisted_def)
  moreover have "distinct (map codeSpan (rows (JObj kvs) (map fst kvs)))"
    using Nil.prems(2) by (simp add: codes_ledger ledger_def)
  ultimately show ?case
    using Nil.prems load by (simp add: last_writes_def)
next
  case (Cons op ops)
  obtain c input where op: "op = (c, input)"
    by (cases op)
  from Cons.prems(3) op obtain q where c: "c \<noteq> []" "c \<noteq> ''__proto__''"
    and p: "parseFloat input = Finite q"
    by (cases "parseFloat input" rule: is_finite.cases) (auto simp: plain_save_def)
  from scan_and_save_ledger [OF Cons.prems(1,2) c(1) p]
  obtain s1 where s1: "scan_and_save c input s = (Normal, s1)"
    and m1: "members (storage s1) = Some (object_set kvs c (Finite q))"
    by blast
  have l1: "ledger (object_set kvs c (Finite q))"
    using Cons.prems(2) by (rule ledger_object_set)
  have p1: "persisted s1 = (persisted s)(c \<mapsto> Finite q)"
    using m1 Cons.prems(1) c(2) by (intro persisted_after_set) simp_all
  have "list_all plain_save ops"
    using Cons.prems(3) by simp
  from Cons.IH [OF m1 l1 this] obtain s' kvs' where
    "saves ops s1 = (Normal, s')" "members (storage s') = Some kvs'" "ledger kvs'"
    "persisted s' = last_writes ops (persisted s1)"
    "loadPrices s' = (Normal, s'\<lparr>pricesList := rows (JObj kvs') (map fst kvs')\<rparr>)"
    "shown (snd (loadPrices s')) = last_writes ops (persisted s1)"
    "distinct (map codeSpan (pricesList (snd (loadPrices s'))))"
    by blast
  then show ?case
    using s1 p1 p op by (auto simp: last_writes_snoc_step)
qed

text \<open>
  The two scenarios of the specification. Scanning \<open>012345678905\<close> and saving \<open>3.99\<close>
  on a fresh page leaves the ledger \<open>{"012345678905": 3.99}\<close> and one row for it; two
  saves for the same code, \<open>1.00\<close> and then \<open>2.50\<close>, leave one entry with the second
  price.
\<close>

lemma scenario_scan_enter_save:
  "\<exists>s'. saves [(''012345678905'', ''3.99'')] blank = (Normal, s')
     \<and> storage s' = Some (Serialized (JObj [(''012345678905'', JNum (Finite (399 / 100)))]))
     \<and> pricesList s' = [\<lparr>codeSpan = ''012345678905'', priceSpan = Finite (399 / 100)\<rparr>]
     \<and> currentCode s' = None \<and> priceEntry_hidden s'"
proof -
  have p: "parseFloat ''3.99'' = Finite (399 / 100)"
    by (simp add: parse_defs)
  have os: "object_set [] ''012345678905'' (Finite (399 / 100))
      = [(''012345678905'', JNum (Finite (399 / 100)))]"
    by (simp add: object_set_def array_index_def)
  have "\<exists>s'. scan_and_save ''012345678905'' ''3.99'' blank = (Normal, s')
          \<and> storage s' = Some (Serialized (JObj (object_set [] ''012345678905'' (Finite (399 / 100)))))
          \<and> members (storage s') = Some (object_set [] ''012345678905'' (Finite (399 / 100)))
          \<and> pricesList s' = rows (JObj (object_set [] ''012345678905'' (Finite (399 / 100))))
                               (map fst (object_set [] ''012345678905'' (Finite (399 / 100))))
          \<and> currentCode s' = None \<and> priceEntry_hidden s'
          \<and> setItem_calls s' = setItem_calls blank + 1"
    by (rule scan_and_save_ledger [OF _ _ _ p]) (simp_all add: blank_def ledger_def)
  then show ?thesis
    unfolding os by (auto simp: rows_def entry_number_def get_prop_def)
qed

lemma scenario_two_saves_same_code:
  "\<exists>s'. saves [(''012345678905'', ''1.00''), (''012345678905'', ''2.50'')] blank = (Normal, s')
     \<and> storage s' = Some (Serialized (JObj [(''012345678905'', JNum (Finite (5 / 2)))]))
     \<and> pricesList s' = [\<lparr>codeSpan = ''012345678905'', priceSpan = Finite (5 / 2)\<rparr>]"
proof -
  have p1: "parseFloat ''1.00'' = Finite 1" and p2: "parseFloat ''2.50'' = Finite (5 / 2)"
    by (simp_all add: parse_defs)
  have os1: "object_set [] ''012345678905'' (Finite 1) = [(''012345678905'', JNum (Finite 1))]"
    by (simp add: object_set_def array_index_def)
  have os2: "object_set [(''012345678905'', JNum (Finite 1))] ''012345678905'' (Finite (5 / 2))
      = [(''012345678905'', JNum (Finite (5 / 2)))]"
    by (simp add: object_set_def)
  have "\<exists>s'. scan_and_save ''012345678905'' ''1.00'' blank = (Normal, s')
          \<and> storage s' = Some (Serialized (JObj (object_set [] ''012345678905'' (Finite 1))))
          \<and> members (storage s') = Some (object_set [] ''012345678905'' (Finite 1))
          \<and> pricesList s' = rows (JObj (object_set [] ''012345678905'' (Finite 1)))
                               (map fst (object_set [] ''012345678905'' (Finite 1)))
          \<and> currentCode s' = None \<and> priceEntry_hidden s'
          \<and> setItem_calls s' = setItem_calls blank + 1"
    by (rule scan_and_save_ledger [OF _ _ _ p1]) (simp_all add: blank_def ledger_def)
  then obtain s1 where s1: "scan_and_save ''012345678905'' ''1.00'' blank = (Normal, s1)"
    and m1: "members (storage s1) = Some [(''012345678905'', JNum (Finite 1))]"
    unfolding os1 by blast
  have "\<exists>s'. scan_and_save ''012345678905'' ''2.50'' s1 = (Normal, s')
          \<and> storage s' = Some (Serialized (JObj (object_set [(''012345678905'', JNum (Finite 1))]
                ''012345678905'' (Finite (5 / 2)))))
          \<and> members (storage s') = Some (object_set [(''012345678905'', JNum (Finite 1))]
                ''012345678905'' (Finite (5 / 2)))
          \<and> pricesList s' = rows (JObj (object_set [(''012345678905'', JNum (Finite 1))]
                ''012345678905'' (Finite (5 / 2))))
              (map fst (object_set [(''012345678905'', JNum (Finite 1))] ''012345678905'' (Finite (5 / 2))))
          \<and> currentCode s' = None \<and> priceEntry_hidden s'
          \<and> setItem_calls s' = setItem_calls s1 + 1"
    by (rule scan_and_save_ledger [OF m1 _ _ p2]) (simp_all add: ledger_def)
  then show ?thesis
    unfolding os2 using s1 by (auto simp: rows_def entry_number_def get_prop_def)
qed

text \<open>
  C3, as stated, fails: the handler only tests the parsed price with \<open>isNaN\<close>. The
  input \<open>-5\<close> parses to a Number that is not a valid price (it is negative), and the
  save writes it.
\<close>

theorem C3_negative_price_is_written:
  "\<not> valid_price (parseFloat ''-5'')
   \<and> fst (scan_and_save ''012345678905'' ''-5'' blank) = Normal
   \<and> storage (snd (scan_and_save ''012345678905'' ''-5'' blank))
       = Some (Serialized (JObj [(''012345678905'', JNum (Finite (- 5)))]))
   \<and> setItem_calls (snd (scan_and_save ''012345678905'' ''-5'' blank)) = 1"
proof -
  have p: "parseFloat ''-5'' = Finite (- 5)"
    by (simp add: parse_defs)
  have "\<exists>s'. scan_and_save ''012345678905'' ''-5'' blank = (Normal, s')
          \<and> storage s' = Some (Serialized (JObj (object_set [] ''012345678905'' (Finite (- 5)))))
          \<and> members (storage s') = Some (object_set [] ''012345678905'' (Finite (- 5)))
          \<and> pricesList s' = rows (JObj (object_set [] ''012345678905'' (Finite (- 5))))
                               (map fst (object_set [] ''012345678905'' (Finite (- 5))))
          \<and> currentCode s' = None \<and> priceEntry_hidden s'
          \<and> setItem_calls s' = setItem_calls blank + 1"
    by (rule scan_and_save_ledger [OF _ _ _ p]) (simp_all add: blank_def ledger_def)
  then obtain s' where s': "scan_and_save ''012345678905'' ''-5'' blank = (Normal, s')"
    and st: "storage s' = Some (Serialized (JObj (object_set [] ''012345678905'' (Finite (- 5)))))"
    and n: "setItem_calls s' = setItem_calls blank + 1"
    by blast
  have os: "object_set [] ''012345678905'' (Finite (- 5)) = [(''012345678905'', JNum (Finite (- 5)))]"
    by (simp add: object_set_def array_index_def)
  show ?thesis
    using p s' n st os by (simp add: blank_def)
qed

text \<open>
  C3, amended. An input that does not parse as a number (\<open>parseFloat\<close> gives \<open>NaN\<close>)
  performs no write and surfaces no error: the page is as it was. A save performs a
  write only when the input parses to a Number other than \<open>NaN\<close> and a scanned code is
  present. Whether the Number is negative is not checked: on a stored ledger (or
  nothing stored), with a scanned code other than \<open>__proto__\<close>, a price that parses to a
  finite Number, negative or not, is written as it is. That save completes with exactly
  one \<open>setItem\<close> call, and the persisted mapping is the old one with that price under
  the code, again a ledger.
\<close>

theorem C3_save_writes_what_parses:
  "(isNaN (parseFloat (priceInput_value s)) \<longrightarrow> save_click s = (Normal, s))
   \<and> (setItem_calls (snd (save_click s)) \<noteq> setItem_calls s \<longrightarrow>
        \<not> isNaN (parseFloat (priceInput_value s)) \<and> (\<exists>c. currentCode s = Some c \<and> c \<noteq> []))
   \<and> (\<forall>kvs c q.
        members (storage s) = Some kvs \<and> ledger kvs \<and> currentCode s = Some c \<and> c \<noteq> []
        \<and> c \<noteq> ''__proto__'' \<and> parseFloat (priceInput_value s) = Finite q \<longrightarrow>
          fst (save_click s) = Normal
          \<and> setItem_calls (snd (save_click s)) = setItem_calls s + 1
          \<and> persisted (snd (save_click s)) = (persisted s)(c \<mapsto> Finite q)
          \<and> (\<exists>kvs'. members (storage (snd (save_click s))) = Some kvs' \<and> ledger kvs'))"
proof -
  have nan: "isNaN (parseFloat (priceInput_value s)) \<longrightarrow> save_click s = (Normal, s)"
    by (auto simp: save_click_def Let_def split: option.splits)
  have written: "setItem_calls (snd (save_click s)) \<noteq> setItem_calls s \<longrightarrow>
        \<not> isNaN (parseFloat (priceInput_value s)) \<and> (\<exists>c. currentCode s = Some c \<and> c \<noteq> [])"
  proof (rule ccontr)
    assume "\<not> (setItem_calls (snd (save_click s)) \<noteq> setItem_calls s \<longrightarrow>
        \<not> isNaN (parseFloat (priceInput_value s)) \<and> (\<exists>c. currentCode s = Some c \<and> c \<noteq> []))"
    then have w: "setItem_calls (snd (save_click s)) \<noteq> setItem_calls s"
      and g: "isNaN (parseFloat (priceInput_value s)) \<or> currentCode s = None \<or> currentCode s = Some []"
      by (cases "currentCode s"; auto)+
    from g have "save_click s = (Normal, s)"
      by (auto simp: save_click_def Let_def split: option.splits)
    then show False
      using w by simp
  qed
  have kept: "fst (save_click s) = Normal
          \<and> setItem_calls (snd (save_click s)) = setItem_calls s + 1
          \<and> persisted (snd (save_click s)) = (persisted s)(c \<mapsto> Finite q)
          \<and> (\<exists>kvs'. members (storage (snd (save_click s))) = Some kvs' \<and> ledger kvs')"
    if m: "members (storage s) = Some kvs" and l: "ledger kvs"
      and c: "currentCode s = Some c" "c \<noteq> []" "c \<noteq> ''__proto__''"
      and p: "parseFloat (priceInput_value s) = Finite q" for kvs c q
  proof -
    let ?kvs' = "object_set kvs c (Finite q)"
    have eq: "save_click s =
       (Normal,
        s\<lparr>storage := Some (Serialized (JObj ?kvs')),
          setItem_calls := setItem_calls s + 1,
          pricesList := rows (JObj ?kvs') (map fst ?kvs'),
          priceEntry_hidden := True,
          currentCode := None\<rparr>)"
      using m l c(1,2) p by (rule save_click_ledger)
    then have m': "members (storage (snd (save_click s))) = Some ?kvs'"
      by simp
    have "persisted (snd (save_click s)) = (persisted s)(c \<mapsto> Finite q)"
      using m' m c(3) by (intro persisted_after_set) simp_all
    moreover have "ledger ?kvs'"
      using l by (rule ledger_object_set)
    ultimately show ?thesis
      using eq m' by simp
  qed
  show ?thesis
    using kept by (intro conjI nan written) blast
qed

theorem C3_witness:
  "isNaN (parseFloat ''abc'')
   \<and> save_click (blank\<lparr>currentCode := Some ''012345678905'', priceInput_value := ''abc''\<rparr>)
       = (Normal, blank\<lparr>currentCode := Some ''012345678905'', priceInput_value := ''abc''\<rparr>)
   \<and> parseFloat ''-5'' = Finite (- 5)
   \<and> persisted (snd (save_click (blank\<lparr>currentCode := Some ''012345678905'', priceInput_value := ''-5''\<rparr>)))
        ''012345678905'' = Some (Finite (- 5))"
proof -
  let ?a = "blank\<lparr>currentCode := Some ''012345678905'', priceInput_value := ''abc''\<rparr>"
  let ?b = "blank\<lparr>currentCode := Some ''012345678905'', priceInput_value := ''-5''\<rparr>"
  have nan: "isNaN (parseFloat ''abc'')"
    by (simp add: parse_defs)
  have "isNaN (parseFloat (priceInput_value ?a)) \<longrightarrow> save_click ?a = (Normal, ?a)"
    using C3_save_writes_what_parses [of ?a] by (rule conjunct1)
  then have a: "save_click ?a = (Normal, ?a)"
    using nan by simp
  have p: "parseFloat ''-5'' = Finite (- 5)"
    by (simp add: parse_defs)
  have "\<forall>kvs c q.
        members (storage ?b) = Some kvs \<and> ledger kvs \<and> currentCode ?b = Some c \<and> c \<noteq> []
        \<and> c \<noteq> ''__proto__'' \<and> parseFloat (priceInput_value ?b) = Finite q \<longrightarrow>
          fst (save_click ?b) = Normal
          \<and> setItem_calls (snd (save_click ?b)) = setItem_calls ?b + 1
          \<and> persisted (snd (save_click ?b)) = (persisted ?b)(c \<mapsto> Finite q)
          \<and> (\<exists>kvs'. members (storage (snd (save_click ?b))) = Some kvs' \<and> ledger kvs')"
    using C3_save_writes_what_parses [of ?b] by blast
  then have "members (storage ?b) = Some [] \<and> ledger [] \<and> currentCode ?b = Some ''012345678905''
        \<and> ''012345678905'' \<noteq> [] \<and> ''012345678905'' \<noteq> ''__proto__''
        \<and> parseFloat (priceInput_value ?b) = Finite (- 5) \<longrightarrow>
        persisted (snd (save_click ?b)) = (persisted ?b)(''012345678905'' \<mapsto> Finite (- 5))"
    by blast
  then have "persisted (snd (save_click ?b)) = (persisted ?b)(''012345678905'' \<mapsto> Finite (- 5))"
    using p by (simp add: blank_def ledger_def)
  then have b: "persisted (snd (save_click ?b)) ''012345678905'' = Some (Finite (- 5))"
    by simp
  show ?thesis
    using nan a p b by (intro conjI)
qed

text \<open>
  C4. When there is no scanned code (\<open>currentCode\<close> is \<open>null\<close> or empty) or the price
  input does not parse as a number, the click on the save button completes without an
  exception and leaves the whole page as it was: the stored item and the count of
  \<open>setItem\<close> calls (no write), the alerts and console errors (no notice), the form and
  the list.
\<close>

theorem C4_invalid_input_is_silent_noop:
  "currentCode s = None \<or> currentCode s = Some [] \<or> isNaN (parseFloat (priceInput_value s))
   \<Longrightarrow> save_click s = (Normal, s)"
  by (auto simp: save_click_def Let_def split: option.splits)

theorem C4_witness:
  "isNaN (parseFloat ''abc'')
   \<and> save_click (blank\<lparr>currentCode := Some ''012345678905'', priceInput_value := ''abc''\<rparr>)
       = (Normal, blank\<lparr>currentCode := Some ''012345678905'', priceInput_value := ''abc''\<rparr>)
   \<and> save_click (blank\<lparr>priceInput_value := ''3.99''\<rparr>) = (Normal, blank\<lparr>priceInput_value := ''3.99''\<rparr>)"
proof -
  have nan: "isNaN (parseFloat ''abc'')"
    by (simp add: parse_defs)
  show ?thesis
    using nan
      C4_invalid_input_is_silent_noop
        [of "blank\<lparr>currentCode := Some ''012345678905'', priceInput_value := ''abc''\<rparr>"]
      C4_invalid_input_is_silent_noop [of "blank\<lparr>priceInput_value := ''3.99''\<rparr>"]
    by (simp add: blank_def)
qed

text \<open>
  On a stored ledger (or nothing stored) a save with a scanned code and a price that
  parses to a finite Number runs to its end: it writes once, sets \<open>currentCode\<close> to
  \<open>null\<close>, hides the price form, and leaves the list that \<open>loadPrices\<close> makes from the
  stored item after the write, which shows exactly the persisted mapping.
\<close>

lemma save_on_ledger_resets_and_refreshes:
  assumes m: "members (storage s) = Some kvs" and l: "ledger kvs"
    and c: "currentCode s = Some c" "c \<noteq> []"
    and p: "parseFloat (priceInput_value s) = Finite q"
  shows "fst (save_click s) = Normal
       \<and> setItem_calls (snd (save_click s)) = setItem_calls s + 1
       \<and> currentCode (snd (save_click s)) = None
       \<and> priceEntry_hidden (snd (save_click s))
       \<and> shown (snd (save_click s)) = persisted (snd (save_click s))
       \<and> loadPrices (snd (save_click s)) = (Normal, snd (save_click s))"
proof -
  let ?kvs' = "object_set kvs c (Finite q)"
  let ?s' = "s\<lparr>storage := Some (Serialized (JObj ?kvs')),
               setItem_calls := setItem_calls s + 1,
               pricesList := rows (JObj ?kvs') (map fst ?kvs'),
               priceEntry_hidden := True,
               currentCode := None\<rparr>"
  have eq: "save_click s = (Normal, ?s')"
    using m l c p by (rule save_click_ledger)
  have l': "ledger ?kvs'"
    using l by (rule ledger_object_set)
  have "shown ?s' = persisted ?s'"
    by (rule shown_ledger [of _ ?kvs']) simp_all
  moreover have "loadPrices ?s' = (Normal, ?s'\<lparr>pricesList := rows (JObj ?kvs') (map fst ?kvs')\<rparr>)"
    by (rule loadPrices_ledger [OF _ l']) simp
  then have "loadPrices ?s' = (Normal, ?s')"
    by simp
  ultimately show ?thesis
    using eq by simp
qed

text \<open>
  A stored array is not a ledger, but the handler runs to its end on it too: a code
  that is not an array index becomes a named property, which is not written, so the
  array is stored again as it was and listed under its indices.
\<close>

lemma save_on_stored_array:
  "save_click (blank\<lparr>storage := Some (Serialized (JArr [JNum (Finite 1)])),
                     currentCode := Some ''012345678905'', priceInput_value := ''3.99'',
                     priceEntry_hidden := False\<rparr>)
     = (Normal,
        blank\<lparr>storage := Some (Serialized (JArr [JNum (Finite 1)])),
              setItem_calls := 1,
              priceInput_value := ''3.99'',
              pricesList := [\<lparr>codeSpan = ''0'', priceSpan = Finite 1\<rparr>]\<rparr>)"
proof -
  have p: "parseFloat ''3.99'' = Finite (399 / 100)"
    by (simp add: parse_defs)
  have a: "array_set [JNum (Finite 1)] ''012345678905'' (Finite (399 / 100)) = Inr [JNum (Finite 1)]"
    by (simp add: array_set_def array_index_def)
  have z: "char_of (48 :: nat) = CHR ''0''"
    by code_simp
  show ?thesis
    by (simp add: save_click_def p isNaN_def a JSON_stringify_def loadPrices_def Object_keys_def
        get_prop_def blank_def z)
qed

text \<open>
  C8, at the input where the code departs from it. The guard of the handler lets an
  infinite price through (\<open>parseFloat\<close> of \<open>Infinity\<close> is not \<open>NaN\<close>).
  \<open>JSON.stringify\<close> writes it as \<open>null\<close>, and the \<open>loadPrices\<close> that follows the write
  throws at \<open>toFixed\<close>, so the two statements after it are not reached: the write has
  completed, the price form is still shown and \<open>currentCode\<close> is still set. The
  \<open>null\<close> stays in the storage, and the same happens to the next save, with a valid
  code and the valid price \<open>3.99\<close>: it writes, \<open>loadPrices\<close> throws at the entry left
  before, and neither the reset nor the refreshed list follows.
\<close>

theorem C8_reset_is_skipped_when_loadPrices_throws:
  "\<not> isNaN (parseFloat ''Infinity'')
   \<and> scan_and_save ''012345678905'' ''Infinity'' blank
       = (Throw TypeError,
          blank\<lparr>storage := Some (Serialized (JObj [(''012345678905'', JNull)])),
                setItem_calls := 1,
                currentCode := Some ''012345678905'',
                scannedCodeSpan := ''012345678905'',
                priceInput_value := ''Infinity'',
                priceEntry_hidden := False\<rparr>)
   \<and> valid_price (parseFloat ''3.99'')
   \<and> scan_and_save ''4006381333931'' ''3.99''
         (blank\<lparr>storage := Some (Serialized (JObj [(''012345678905'', JNull)])),
                setItem_calls := 1,
                currentCode := Some ''012345678905'',
                scannedCodeSpan := ''012345678905'',
                priceInput_value := ''Infinity'',
                priceEntry_hidden := False\<rparr>)
       = (Throw TypeError,
          blank\<lparr>storage := Some (Serialized (JObj [(''012345678905'', JNull),
                                                      (''4006381333931'', JNum (Finite (399 / 100)))])),
                setItem_calls := 2,
                currentCode := Some ''4006381333931'',
                scannedCodeSpan := ''4006381333931'',
                priceInput_value := ''3.99'',
                priceEntry_hidden := False\<rparr>)"
proof -
  have p: "parseFloat ''Infinity'' = PosInfinity"
    by (simp add: parse_defs)
  have q: "parseFloat ''3.99'' = Finite (399 / 100)"
    by (simp add: parse_defs)
  have os1: "object_set [] ''012345678905'' PosInfinity = [(''012345678905'', JNum PosInfinity)]"
    by (simp add: object_set_def array_index_def)
  have os2: "object_set [(''012345678905'', JNull)] ''4006381333931'' (Finite (399 / 100))
      = [(''012345678905'', JNull), (''4006381333931'', JNum (Finite (399 / 100)))]"
    by (simp add: object_set_def array_index_def DecimalDigit_def DecimalDigits_MV_def digit_value_def)
  have first: "scan_and_save ''012345678905'' ''Infinity'' blank
       = (Throw TypeError,
          blank\<lparr>storage := Some (Serialized (JObj [(''012345678905'', JNull)])),
                setItem_calls := 1,
                currentCode := Some ''012345678905'',
                scannedCodeSpan := ''012345678905'',
                priceInput_value := ''Infinity'',
                priceEntry_hidden := False\<rparr>)"
    by (simp add: scan_and_save_def save_click_def onDetected_def decoded_def p isNaN_def os1
        JSON_stringify_def loadPrices_def Object_keys_def get_prop_def blank_def)
  have second: "scan_and_save ''4006381333931'' ''3.99''
         (blank\<lparr>storage := Some (Serialized (JObj [(''012345678905'', JNull)])),
                setItem_calls := 1,
                currentCode := Some ''012345678905'',
                scannedCodeSpan := ''012345678905'',
                priceInput_value := ''Infinity'',
                priceEntry_hidden := False\<rparr>)
       = (Throw TypeError,
          blank\<lparr>storage := Some (Serialized (JObj [(''012345678905'', JNull),
                                                      (''4006381333931'', JNum (Finite (399 / 100)))])),
                setItem_calls := 2,
                currentCode := Some ''4006381333931'',
                scannedCodeSpan := ''4006381333931'',
                priceInput_value := ''3.99'',
                priceEntry_hidden := False\<rparr>)"
    by (simp add: scan_and_save_def save_click_def onDetected_def decoded_def q isNaN_def os2
        JSON_stringify_def loadPrices_def Object_keys_def get_prop_def blank_def)
  show ?thesis
    using first second by (simp add: p q isNaN_def)
qed

text \<open>
  The price is validated by prefix. When a prefix \<open>p\<close> of the price input parses to a
  finite Number and what follows it is a non-numeric tail (its first character cannot
  continue a decimal literal, or none of its characters is a digit), \<open>parseFloat\<close> of
  the whole input is \<open>parseFloat\<close> of the prefix. The save then accepts the input: on a
  stored ledger, with a scanned code other than \<open>__proto__\<close>, it completes, writes once,
  and the price persisted for the code is the Number of the prefix.
\<close>

lemma finite_prefix_is_persisted:
  assumes prefix: "parseFloat p = Finite q"
    and trailing: "non_numeric_tail t"
    and input: "priceInput_value s = p @ t"
    and scanned: "currentCode s = Some c" "c \<noteq> []" "c \<noteq> ''__proto__''"
    and stored: "members (storage s) = Some kvs" "ledger kvs"
  shows "parseFloat (p @ t) = parseFloat p
       \<and> fst (save_click s) = Normal
       \<and> setItem_calls (snd (save_click s)) = setItem_calls s + 1
       \<and> persisted (snd (save_click s)) c = Some (Finite q)"
proof -
  have same: "parseFloat (p @ t) = parseFloat p"
    using prefix trailing by (intro parseFloat_append) simp_all
  then have p: "parseFloat (priceInput_value s) = Finite q"
    using prefix input by simp
  let ?kvs' = "object_set kvs c (Finite q)"
  have eq: "save_click s =
     (Normal,
      s\<lparr>storage := Some (Serialized (JObj ?kvs')),
        setItem_calls := setItem_calls s + 1,
        pricesList := rows (JObj ?kvs') (map fst ?kvs'),
        priceEntry_hidden := True,
        currentCode := None\<rparr>)"
    using stored scanned(1,2) p by (rule save_click_ledger)
  then have m': "members (storage (snd (save_click s))) = Some ?kvs'"
    by simp
  have "persisted (snd (save_click s)) = (persisted s)(c \<mapsto> Finite q)"
    using m' stored(1) scanned(3) by (intro persisted_after_set) simp_all
  then show ?thesis
    using same eq by simp
qed

lemma finite_prefix_example:
  "parseFloat ''3.99abc'' = Finite (399 / 100)
   \<and> persisted (snd (save_click (blank\<lparr>currentCode := Some ''012345678905'',
        priceInput_value := ''3.99abc''\<rparr>))) ''012345678905'' = Some (Finite (399 / 100))"
proof -
  let ?s = "blank\<lparr>currentCode := Some ''012345678905'', priceInput_value := ''3.99abc''\<rparr>"
  have p: "parseFloat ''3.99'' = Finite (399 / 100)"
    by (simp add: parse_defs)
  have t: "non_numeric_tail ''abc''"
    by (simp add: non_numeric_tail_def numeric_char_def DecimalDigit_def)
  have "parseFloat (''3.99'' @ ''abc'') = parseFloat ''3.99''
       \<and> fst (save_click ?s) = Normal
       \<and> setItem_calls (snd (save_click ?s)) = setItem_calls ?s + 1
       \<and> persisted (snd (save_click ?s)) ''012345678905'' = Some (Finite (399 / 100))"
    by (rule finite_prefix_is_persisted [OF p t, where kvs = "[]"])
      (simp_all add: blank_def ledger_def)
  then show ?thesis
    using p by simp
qed

text \<open>
  C10, at the input where the code departs from it. The prefix \<open>Infinity\<close> of the input
  \<open>Infinityabc\<close> parses as a number, the tail \<open>abc\<close> is non-numeric, and the save accepts
  the input: the whole input parses to the Number of the prefix and passes the guard.
  But what is persisted for the code is not the parsed prefix: \<open>JSON.stringify\<close> writes
  \<open>null\<close>, and the \<open>loadPrices\<close> that follows throws at it.
\<close>

theorem C10_infinite_prefix_is_persisted_as_null:
  "parseFloat ''Infinity'' = PosInfinity
   \<and> non_numeric_tail ''abc''
   \<and> parseFloat ''Infinityabc'' = PosInfinity
   \<and> \<not> isNaN (parseFloat ''Infinityabc'')
   \<and> scan_and_save ''012345678905'' ''Infinityabc'' blank
       = (Throw TypeError,
          blank\<lparr>storage := Some (Serialized (JObj [(''012345678905'', JNull)])),
                setItem_calls := 1,
                currentCode := Some ''012345678905'',
                scannedCodeSpan := ''012345678905'',
                priceInput_value := ''Infinityabc'',
                priceEntry_hidden := False\<rparr>)
   \<and> persisted (snd (scan_and_save ''012345678905'' ''Infinityabc'' blank)) ''012345678905'' = None"
proof -
  have p: "parseFloat ''Infinity'' = PosInfinity"
    by (simp add: parse_defs)
  have t: "non_numeric_tail ''abc''"
    by (simp add: non_numeric_tail_def numeric_char_def DecimalDigit_def)
  have "parseFloat (''Infinity'' @ ''abc'') = parseFloat ''Infinity''"
    using t by (intro parseFloat_append) (simp_all add: p)
  then have pt: "parseFloat ''Infinityabc'' = PosInfinity"
    using p by simp
  have os: "object_set [] ''012345678905'' PosInfinity = [(''012345678905'', JNum PosInfinity)]"
    by (simp add: object_set_def array_index_def)
  have run: "scan_and_save ''012345678905'' ''Infinityabc'' blank
       = (Throw TypeError,
          blank\<lparr>storage := Some (Serialized (JObj [(''012345678905'', JNull)])),
                setItem_calls := 1,
                currentCode := Some ''012345678905'',
                scannedCodeSpan := ''012345678905'',
                priceInput_value := ''Infinityabc'',
                priceEntry_hidden := False\<rparr>)"
    by (simp add: scan_and_save_def save_click_def onDetected_def decoded_def pt isNaN_def os
        JSON_stringify_def loadPrices_def Object_keys_def get_prop_def blank_def)
  have "persisted (snd (scan_and_save ''012345678905'' ''Infinityabc'' blank)) ''012345678905'' = None"
    unfolding run by (simp add: persisted_def entry_number_def get_prop_def)
  then show ?thesis
    using p t pt run by (simp add: isNaN_def)
qed

subsection \<open>Detection\<close>

text \<open>
  When the scanner fails to initialise, \<open>startScanner\<close> reports it once with \<open>alert\<close> and
  returns; nothing stored, scanned or listed is touched.
\<close>

lemma startScanner_error_is_reported:
  "alerts (startScanner True s)
     = alerts s @ [''Unable to start barcode scanner. Please check camera permissions.'']
   \<and> storage (startScanner True s) = storage s
   \<and> currentCode (startScanner True s) = currentCode s
   \<and> pricesList (startScanner True s) = pricesList s
   \<and> scanning (startScanner True s) = scanning s"
  by (simp add: startScanner_def)

text \<open>
  C9. A detection event without a decoded code (no result, no \<open>codeResult\<close>, no
  \<open>code\<close>, or the empty string) leaves the whole page as it was: the scanner keeps
  running, \<open>onDetected\<close> stays subscribed, \<open>currentCode\<close> is unchanged and the price form
  stays as it is.
\<close>

theorem C9_detection_without_code_changes_nothing:
  "decoded result = None \<or> decoded result = Some [] \<Longrightarrow> onDetected result s = s"
  by (auto simp: onDetected_def)

theorem C9_witness:
  "onDetected None (blank\<lparr>scanning := True, subscribed := True\<rparr>)
     = blank\<lparr>scanning := True, subscribed := True\<rparr>
   \<and> onDetected (Some \<lparr>codeResult = None\<rparr>) (blank\<lparr>scanning := True, subscribed := True\<rparr>)
     = blank\<lparr>scanning := True, subscribed := True\<rparr>
   \<and> onDetected (Some \<lparr>codeResult = Some \<lparr>code = None\<rparr>\<rparr>) (blank\<lparr>scanning := True, subscribed := True\<rparr>)
     = blank\<lparr>scanning := True, subscribed := True\<rparr>
   \<and> onDetected (Some \<lparr>codeResult = Some \<lparr>code = Some []\<rparr>\<rparr>) (blank\<lparr>scanning := True, subscribed := True\<rparr>)
     = blank\<lparr>scanning := True, subscribed := True\<rparr>"
  using
    C9_detection_without_code_changes_nothing [of None "blank\<lparr>scanning := True, subscribed := True\<rparr>"]
    C9_detection_without_code_changes_nothing
      [of "Some \<lparr>codeResult = None\<rparr>" "blank\<lparr>scanning := True, subscribed := True\<rparr>"]
    C9_detection_without_code_changes_nothing
      [of "Some \<lparr>codeResult = Some \<lparr>code = None\<rparr>\<rparr>" "blank\<lparr>scanning := True, subscribed := True\<rparr>"]
    C9_detection_without_code_changes_nothing
      [of "Some \<lparr>codeResult = Some \<lparr>code = Some []\<rparr>\<rparr>" "blank\<lparr>scanning := True, subscribed := True\<rparr>"]
  by (simp add: decoded_def)

end
